theory Spec2Isabelle
  imports Complex_Main "HOL-Library.Word"
begin

unbundle bit_operations_syntax

section \<open>Numbers\<close>

text \<open>
  The program computes with JavaScript numbers, IEEE binary64.  A number is a real,
  meant to be one that a double represents, or one of the three special values.  The
  arithmetic of \<open>testLine\<close> and of \<open>repel\<close> is modelled with its rounding: every
  operation returns the double nearest to the exact result, ties going to the even
  significand, and an infinity when the rounded result is out of range.  The sign of
  a zero is not represented.  The arithmetic of \<open>move\<close> and of the probes that
  \<open>move\<close> and \<open>isGrounded\<close> set up (the sides of a body, the sub-step, the
  snaps) is over the reals, without rounding.
\<close>

datatype jsnum = Num real | PInf | NInf | NaN

text \<open>
  Rounding a real to an integer with ties to even, the exponent of the unit in the
  last place of a double near \<open>x\<close> (\<open>x \<noteq> 0\<close>; subnormal below \<open>2 ^ -1022\<close>), and
  the rounding of a real to a double.
\<close>

definition rnd_even :: "real \<Rightarrow> int" where
  "rnd_even r =
     (let f = \<lfloor>r\<rfloor>; d = r - of_int f
      in if d < 1 / 2 then f else if 1 / 2 < d then f + 1 else if even f then f else f + 1)"

definition ulp_exp :: "real \<Rightarrow> int" where
  "ulp_exp x = max \<lfloor>log 2 \<bar>x\<bar>\<rfloor> (- 1022) - 52"

definition fl64 :: "real \<Rightarrow> jsnum" where
  "fl64 x =
     (if x = 0 then Num 0
      else
        (let u = 2 powr of_int (ulp_exp x);
             y = of_int (rnd_even (x / u)) * u
         in if 2 ^ 1024 \<le> \<bar>y\<bar> then (if 0 < x then PInf else NInf) else Num y))"

text \<open>A bound below which no rounding overflows.\<close>

definition finite_range :: real where
  "finite_range = 2 ^ 1023"

text \<open>
  The reals that a double represents: an integer below \<open>2 ^ 53\<close> in size, scaled by
  a power of two between \<open>2 ^ -1074\<close> and \<open>2 ^ 971\<close>.
\<close>

definition is_double :: "real \<Rightarrow> bool" where
  "is_double y = (\<exists>m e. y = of_int m * 2 powr of_int e \<and> \<bar>m\<bar> < 2 ^ 53 \<and> - 1074 \<le> e \<and> e \<le> 971)"

text \<open>
  The four operations, negation, \<open>Math.abs\<close> and \<open><\<close>.  Adding zero returns the
  other operand, as it does on doubles.
\<close>

fun js_neg :: "jsnum \<Rightarrow> jsnum" where
  "js_neg (Num a) = Num (- a)"
| "js_neg PInf = NInf"
| "js_neg NInf = PInf"
| "js_neg NaN = NaN"

fun js_add :: "jsnum \<Rightarrow> jsnum \<Rightarrow> jsnum" where
  "js_add (Num a) (Num b) = (if b = 0 then Num a else if a = 0 then Num b else fl64 (a + b))"
| "js_add NaN y = NaN"
| "js_add x NaN = NaN"
| "js_add PInf NInf = NaN"
| "js_add NInf PInf = NaN"
| "js_add PInf y = PInf"
| "js_add x PInf = PInf"
| "js_add NInf y = NInf"
| "js_add x NInf = NInf"

definition js_sub :: "jsnum \<Rightarrow> jsnum \<Rightarrow> jsnum" where
  "js_sub x y = js_add x (js_neg y)"

fun js_sign :: "jsnum \<Rightarrow> real" where
  "js_sign (Num a) = sgn a"
| "js_sign PInf = 1"
| "js_sign NInf = - 1"
| "js_sign NaN = 0"

definition js_inf :: "real \<Rightarrow> jsnum" where
  "js_inf s = (if s = 0 then NaN else if 0 < s then PInf else NInf)"

fun js_mul :: "jsnum \<Rightarrow> jsnum \<Rightarrow> jsnum" where
  "js_mul (Num a) (Num b) = fl64 (a * b)"
| "js_mul NaN y = NaN"
| "js_mul x NaN = NaN"
| "js_mul x y = js_inf (js_sign x * js_sign y)"

fun js_div :: "jsnum \<Rightarrow> jsnum \<Rightarrow> jsnum" where
  "js_div (Num a) (Num b) = (if b = 0 then js_inf (sgn a) else fl64 (a / b))"
| "js_div NaN y = NaN"
| "js_div x NaN = NaN"
| "js_div (Num a) y = Num 0"
| "js_div x (Num b) = js_inf (js_sign x * (if b < 0 then - 1 else 1))"
| "js_div x y = NaN"

fun js_abs :: "jsnum \<Rightarrow> jsnum" where
  "js_abs (Num a) = Num \<bar>a\<bar>"
| "js_abs PInf = PInf"
| "js_abs NInf = PInf"
| "js_abs NaN = NaN"

fun js_lt :: "jsnum \<Rightarrow> jsnum \<Rightarrow> bool" where
  "js_lt (Num a) (Num b) = (a < b)"
| "js_lt NaN y = False"
| "js_lt x NaN = False"
| "js_lt x NInf = False"
| "js_lt PInf y = False"
| "js_lt x y = True"

section \<open>Terrain classification (\<open>Map.ts\<close>)\<close>

type_synonym ground = "8 word"

definition IS_SOLID :: ground where "IS_SOLID = 0x01"
definition IS_WALKABLE :: ground where "IS_WALKABLE = 0x02"
definition IS_POINT_WALKABLE :: ground where "IS_POINT_WALKABLE = 0x04"
definition IS_FEARLESS :: ground where "IS_FEARLESS = 0x08"
definition IS_WALLED :: ground where "IS_WALLED = 0x10"
definition IS_PASSABLE :: ground where "IS_PASSABLE = 0x20"
definition IS_DROPPABLE :: ground where "IS_DROPPABLE = 0x40"

text \<open>The enum \<open>GroundType\<close>.\<close>

definition AIR :: ground where
  "AIR = IS_DROPPABLE"
definition SOLID :: ground where
  "SOLID = IS_SOLID OR IS_WALLED OR IS_WALKABLE"
definition PASSABLE_SOLID :: ground where
  "PASSABLE_SOLID = IS_WALKABLE OR IS_PASSABLE"
definition PASSABLE_RAMP :: ground where
  "PASSABLE_RAMP = IS_WALKABLE OR IS_PASSABLE"
definition DROPPABLE :: ground where
  "DROPPABLE = IS_WALKABLE OR IS_PASSABLE OR IS_DROPPABLE"
definition POINT_PASSABLE :: ground where
  "POINT_PASSABLE = IS_POINT_WALKABLE OR IS_DROPPABLE"
definition SOLID_NO_FEAR :: ground where
  "SOLID_NO_FEAR = IS_SOLID OR IS_FEARLESS OR IS_WALKABLE OR IS_WALLED"
definition DROPPABLE_NO_FEAR :: ground where
  "DROPPABLE_NO_FEAR = IS_WALKABLE OR IS_FEARLESS OR IS_PASSABLE OR IS_DROPPABLE"

text \<open>
  What \<open>getPixelData\<close> hands to the flag tests: a stored byte, or \<open>undefined\<close>
  (\<open>None\<close>) when the index read from \<open>mapData\<close> is not an element of the array.
  \<open>undefined & flag\<close> is \<open>0\<close> in JavaScript.
\<close>

definition bits :: "ground option \<Rightarrow> ground" where
  "bits t = (case t of None \<Rightarrow> 0 | Some v \<Rightarrow> v)"

definition isSolid :: "ground option \<Rightarrow> bool" where
  "isSolid t = (bits t AND IS_SOLID \<noteq> 0)"
definition isWalkable :: "ground option \<Rightarrow> bool" where
  "isWalkable t = (bits t AND IS_WALKABLE \<noteq> 0)"
definition isPointWalkable :: "ground option \<Rightarrow> bool" where
  "isPointWalkable t = (bits t AND IS_POINT_WALKABLE \<noteq> 0)"
definition isFearless :: "ground option \<Rightarrow> bool" where
  "isFearless t = (bits t AND IS_FEARLESS \<noteq> 0)"
definition isWalled :: "ground option \<Rightarrow> bool" where
  "isWalled t = (bits t AND IS_WALLED \<noteq> 0)"
definition isPassable :: "ground option \<Rightarrow> bool" where
  "isPassable t = (bits t AND IS_PASSABLE \<noteq> 0)"
definition isDroppable :: "ground option \<Rightarrow> bool" where
  "isDroppable t = (bits t AND IS_DROPPABLE \<noteq> 0)"

section \<open>The grid and its construction\<close>

record grid =
  mapData :: "ground list"
  mapWidth :: nat
  mapHeight :: nat

text \<open>
  The constructor draws the texture on a canvas and reads it back with
  \<open>getImageData\<close>: \<open>width * height\<close> pixels, row by row, four bytes (R, G, B, A) each.
  The loop visits byte offsets \<open>i = 0, 4, 8, ...\<close>; \<open>p\<close> below is the pixel
  index \<open>i / 4\<close>.  An image is \<open>None\<close> when no 2d context or texture source exists.
  \<open>getImageData\<close> throws an \<open>IndexSizeError\<close> when the width or the height of the
  rectangle it is asked for is zero.
\<close>

type_synonym pixel = "8 word \<times> 8 word \<times> 8 word \<times> 8 word"

record image =
  img_width :: nat
  img_height :: nat
  img_data :: "pixel list"

datatype error =
    FailedToGenerate
  | IndexSizeError
  | InvalidMapData nat nat "8 word" "8 word" "8 word"

fun decode_pixel :: "pixel \<Rightarrow> ground option" where
  "decode_pixel (r, g, b, a) =
     (if r = 0x00 \<and> g = 0x00 \<and> b = 0x00 then Some SOLID
      else if r = 0xFF \<and> g = 0xFF \<and> b = 0xFF then Some AIR
      else if r = 0xFF \<and> g = 0x00 \<and> b = 0x00 then Some PASSABLE_SOLID
      else if r = 0x00 \<and> g = 0xFF \<and> b = 0x00 then Some PASSABLE_RAMP
      else if r = 0xFF \<and> g = 0x00 \<and> b = 0xDC then Some DROPPABLE
      else if r = 0xFF \<and> g = 0xFF \<and> b = 0x00 then Some POINT_PASSABLE
      else if r = 0xAA \<and> g = 0xAA \<and> b = 0xAA then Some SOLID_NO_FEAR
      else if r = 0xFF \<and> g = 0x88 \<and> b = 0x99 then Some DROPPABLE_NO_FEAR
      else None)"

declare decode_pixel.simps [simp del]

fun decode_loop :: "nat \<Rightarrow> nat \<Rightarrow> pixel list \<Rightarrow> error + ground list" where
  "decode_loop w p [] = Inr []"
| "decode_loop w p (px # rest) =
     (case decode_pixel px of
        None \<Rightarrow>
          (case px of (r, g, b, a) \<Rightarrow> Inl (InvalidMapData (p mod w) (p div w) r g b))
      | Some t \<Rightarrow>
          (case decode_loop w (Suc p) rest of
             Inl e \<Rightarrow> Inl e
           | Inr ts \<Rightarrow> Inr (t # ts)))"

definition Map_constructor :: "image option \<Rightarrow> error + grid" where
  "Map_constructor tex =
     (case tex of
        None \<Rightarrow> Inl FailedToGenerate
      | Some im \<Rightarrow>
          if img_width im = 0 \<or> img_height im = 0 then Inl IndexSizeError
          else
            (case decode_loop (img_width im) 0 (img_data im) of
               Inl e \<Rightarrow> Inl e
             | Inr ts \<Rightarrow>
                 Inr \<lparr>mapData = ts, mapWidth = img_width im, mapHeight = img_height im\<rparr>))"

text \<open>\<open>Math.floor\<close>, and the comparisons of \<open>getPixelData\<close> against an integer bound.\<close>

fun js_floor :: "jsnum \<Rightarrow> jsnum" where
  "js_floor (Num v) = Num (of_int \<lfloor>v\<rfloor>)"
| "js_floor PInf = PInf"
| "js_floor NInf = NInf"
| "js_floor NaN = NaN"

fun js_less :: "jsnum \<Rightarrow> real \<Rightarrow> bool" where
  "js_less (Num v) c = (v < c)"
| "js_less PInf c = False"
| "js_less NInf c = True"
| "js_less NaN c = False"

fun js_ge :: "jsnum \<Rightarrow> real \<Rightarrow> bool" where
  "js_ge (Num v) c = (v \<ge> c)"
| "js_ge PInf c = True"
| "js_ge NInf c = False"
| "js_ge NaN c = False"

text \<open>
  \<open>this.mapData[y * this.mapWidth + x]\<close>: past the guard, \<open>x\<close> and \<open>y\<close> are
  non-negative integers or \<open>NaN\<close>; a \<open>NaN\<close> index and an index past the end of the
  array read \<open>undefined\<close>.
\<close>

fun read_cell :: "grid \<Rightarrow> jsnum \<Rightarrow> jsnum \<Rightarrow> ground option" where
  "read_cell m (Num x) (Num y) =
     (let i = nat \<lfloor>y\<rfloor> * mapWidth m + nat \<lfloor>x\<rfloor>
      in if i < length (mapData m) then Some (mapData m ! i) else None)"
| "read_cell m _ _ = None"

definition getPixelData :: "grid \<Rightarrow> jsnum \<Rightarrow> jsnum \<Rightarrow> ground option" where
  "getPixelData m x0 y0 =
     (let x = js_floor x0; y = js_floor y0
      in if js_less x 0 \<or> js_less y 0 \<or> js_ge x (real (mapWidth m)) \<or> js_ge y (real (mapHeight m))
         then Some SOLID
         else read_cell m x y)"

section \<open>Line probes\<close>

text \<open>
  \<open>testLine\<close> calls its predicate once per sample.  The loop returns the result
  together with the samples the predicate was called on, in call order; \<open>testLine\<close>
  is the result alone.  A point \<open>{x, y}\<close> is a pair.
\<close>

type_synonym point = "real \<times> real"

text \<open>
  The coordinate \<open>start + (end - start) * i / steps\<close> of the \<open>i\<close>-th sample,
  computed in doubles from left to right.  The counter \<open>i\<close> is a natural number;
  the counter of the code is a double, which counts as the natural number does
  below \<open>2 ^ 53\<close>.
\<close>

definition sample :: "real \<Rightarrow> real \<Rightarrow> nat \<Rightarrow> real \<Rightarrow> jsnum" where
  "sample s e i steps =
     js_add (Num s) (js_div (js_mul (js_sub (Num e) (Num s)) (Num (real i))) (Num steps))"

function testLine_loop ::
  "point \<Rightarrow> point \<Rightarrow> (jsnum \<Rightarrow> jsnum \<Rightarrow> bool) \<Rightarrow> real \<Rightarrow> nat \<Rightarrow> bool \<times> (jsnum \<times> jsnum) list"
where
  "testLine_loop start en test steps i =
     (if real i \<le> steps then
        (let x = sample (fst start) (fst en) i steps;
             y = sample (snd start) (snd en) i steps
         in if test x y then (True, [(x, y)])
            else (case testLine_loop start en test steps (Suc i) of
                    (res, calls) \<Rightarrow> (res, (x, y) # calls)))
      else (False, []))"
  by pat_completeness auto
termination
  by (relation "measure (\<lambda>(start, en, test, steps, i). nat \<lceil>steps\<rceil> + 1 - i)")
     (auto simp: le_nat_iff le_ceiling_iff Suc_diff_le)

declare testLine_loop.simps [simp del]

definition testLine :: "point \<Rightarrow> point \<Rightarrow> (jsnum \<Rightarrow> jsnum \<Rightarrow> bool) \<Rightarrow> real \<Rightarrow> bool" where
  "testLine start en test steps = fst (testLine_loop start en test steps 0)"

definition testLine_calls ::
  "point \<Rightarrow> point \<Rightarrow> (jsnum \<Rightarrow> jsnum \<Rightarrow> bool) \<Rightarrow> real \<Rightarrow> (jsnum \<times> jsnum) list" where
  "testLine_calls start en test steps = snd (testLine_loop start en test steps 0)"

section \<open>Bodies (\<open>Actor\<close>)\<close>

text \<open>
  \<open>x\<close> and \<open>y\<close> of the sprite are its \<open>position\<close>.  \<open>collideable\<close> is a getter
  that subclasses override; it is a field here.
\<close>

record body =
  pos_x :: real
  pos_y :: real
  size_x :: real
  size_y :: real
  vel_x :: real
  vel_y :: real
  fallthrough :: "real option"
  weight :: real
  collideable :: bool

definition top_y :: "body \<Rightarrow> real" where "top_y a = pos_y a"
definition bottom :: "body \<Rightarrow> real" where "bottom a = pos_y a + size_y a"
definition left :: "body \<Rightarrow> real" where "left a = pos_x a"
definition right :: "body \<Rightarrow> real" where "right a = pos_x a + size_x a"
definition horizontalCenter :: "body \<Rightarrow> real" where
  "horizontalCenter a = pos_x a + size_x a / 2"
definition verticalCenter :: "body \<Rightarrow> real" where
  "verticalCenter a = pos_y a + size_y a / 2"

section \<open>Ground contact\<close>

text \<open>
  \<open>EPSILON\<close> is imported from \<open>physicalConstants\<close>, which is not among the sources:
  it is the parameter \<open>eps\<close> of every function that uses it.
\<close>

definition actorIsOnWalkableGround :: "grid \<Rightarrow> real \<Rightarrow> body \<Rightarrow> real \<Rightarrow> bool" where
  "actorIsOnWalkableGround m eps a verticalOffset =
     (testLine (left a, bottom a + verticalOffset) (right a - eps, bottom a + verticalOffset)
        (\<lambda>x y. isWalkable (getPixelData m x y)) 2
      \<or> isPointWalkable
           (getPixelData m (Num (horizontalCenter a)) (Num (bottom a + verticalOffset))))"

definition actorIsOnSolidGround :: "grid \<Rightarrow> real \<Rightarrow> body \<Rightarrow> real \<Rightarrow> bool" where
  "actorIsOnSolidGround m eps a verticalOffset =
     testLine (left a, bottom a + verticalOffset) (right a - eps, bottom a + verticalOffset)
       (\<lambda>x y. isSolid (getPixelData m x y)) 2"

definition actorIsInPassable :: "grid \<Rightarrow> real \<Rightarrow> body \<Rightarrow> bool" where
  "actorIsInPassable m eps a =
     (if (case fallthrough a of None \<Rightarrow> False | Some f \<Rightarrow> \<bar>pos_y a - f\<bar> < 5) then True
      else isPointWalkable (getPixelData m (Num (horizontalCenter a)) (Num (bottom a - 2)))
           \<or> testLine (left a, bottom a - 2) (right a - eps, bottom a - 2)
                (\<lambda>x y. isPassable (getPixelData m x y)) (right a - left a))"

definition isGrounded :: "grid \<Rightarrow> real \<Rightarrow> body \<Rightarrow> bool" where
  "isGrounded m eps a =
     (if vel_y a < 0 then False
      else if \<not> actorIsOnWalkableGround m eps a 0 then False
      else if actorIsOnSolidGround m eps a 0 then True
      else if actorIsInPassable m eps a then False
      else True)"

section \<open>Moving a body through the grid\<close>

text \<open>The locals of \<open>move\<close> that the loop updates, with the body.\<close>

record mstate =
  actor :: body
  movingX :: bool
  movingY :: bool
  collisionX :: bool
  collisionY :: bool

definition move_vertical :: "grid \<Rightarrow> real \<Rightarrow> real \<Rightarrow> mstate \<Rightarrow> mstate" where
  "move_vertical m eps magnitude st =
     (if movingY st then
        (let a1 = (actor st)\<lparr>pos_y := pos_y (actor st) + vel_y (actor st) / magnitude\<rparr>
         in if vel_y a1 < 0 then st\<lparr>actor := a1\<rparr>
            else if actorIsOnSolidGround m eps a1 (- eps)
                    \<or> (actorIsOnWalkableGround m eps a1 (- eps) \<and> \<not> actorIsInPassable m eps a1)
            then st\<lparr>actor := a1\<lparr>pos_y := of_int \<lfloor>pos_y a1 - eps\<rfloor>\<rparr>,
                     movingY := False, collisionY := True\<rparr>
            else st\<lparr>actor := a1\<rparr>)
      else st)"

definition wall_probe :: "grid \<Rightarrow> real \<Rightarrow> body \<Rightarrow> real \<Rightarrow> bool" where
  "wall_probe m eps a x =
     testLine (x, top_y a) (x, bottom a - 1 - eps) (\<lambda>x y. isWalled (getPixelData m x y)) 1"

definition slope_step :: "grid \<Rightarrow> real \<Rightarrow> mstate \<Rightarrow> mstate" where
  "slope_step m eps st =
     (if \<not> movingY st then
        (let a = actor st
         in if actorIsOnWalkableGround m eps a (- 1) then st\<lparr>actor := a\<lparr>pos_y := pos_y a - 1\<rparr>\<rparr>
            else if \<not> actorIsOnWalkableGround m eps a 0 \<and> actorIsOnWalkableGround m eps a 1
            then st\<lparr>actor := a\<lparr>pos_y := pos_y a + 1\<rparr>\<rparr>
            else st)
      else st)"

definition wall_step :: "grid \<Rightarrow> real \<Rightarrow> real \<Rightarrow> mstate \<Rightarrow> mstate" where
  "wall_step m eps magnitude st =
     (let a1 = (actor st)\<lparr>pos_x := pos_x (actor st) + vel_x (actor st) / magnitude\<rparr>
      in if vel_x a1 < 0 then
           (if wall_probe m eps a1 (left a1)
            then st\<lparr>actor := a1\<lparr>pos_x := of_int \<lceil>pos_x a1\<rceil>\<rparr>,
                     movingX := False, collisionX := True\<rparr>
            else st\<lparr>actor := a1\<rparr>)
         else
           (if wall_probe m eps a1 (right a1 - eps)
            then st\<lparr>actor := a1\<lparr>pos_x := of_int \<lfloor>pos_x a1 - eps\<rfloor>\<rparr>,
                     movingX := False, collisionX := True\<rparr>
            else st\<lparr>actor := a1\<rparr>))"

definition move_horizontal :: "grid \<Rightarrow> real \<Rightarrow> real \<Rightarrow> mstate \<Rightarrow> mstate" where
  "move_horizontal m eps magnitude st =
     (if movingX st then slope_step m eps (wall_step m eps magnitude st) else st)"

text \<open>
  The loop \<open>for (i = 0; i < magnitude && (movingX || movingY); i++)\<close>.  Inside it
  \<open>magnitude\<close> is a positive integer, so the two divisions by it are defined.
\<close>

function move_loop :: "grid \<Rightarrow> real \<Rightarrow> real \<Rightarrow> nat \<Rightarrow> mstate \<Rightarrow> mstate" where
  "move_loop m eps magnitude i st =
     (if real i < magnitude \<and> (movingX st \<or> movingY st)
      then move_loop m eps magnitude (Suc i)
             (move_horizontal m eps magnitude (move_vertical m eps magnitude st))
      else st)"
  by pat_completeness auto
termination
  by (relation "measure (\<lambda>(m, eps, magnitude, i, st). nat \<lceil>magnitude\<rceil> - i)")
     (auto simp: zless_nat_eq_int_zless less_ceiling_iff intro!: diff_less_mono2)

declare move_loop.simps [simp del]

definition move :: "grid \<Rightarrow> real \<Rightarrow> body \<Rightarrow> (bool \<times> bool) \<times> body" where
  "move m eps a =
     (let magnitude = of_int \<lceil>sqrt (vel_x a * vel_x a + vel_y a * vel_y a)\<rceil>;
          st = move_loop m eps magnitude 0
                 \<lparr>actor = a, movingX = (vel_x a \<noteq> 0), movingY = (vel_y a \<noteq> 0),
                  collisionX = False, collisionY = False\<rparr>
      in ((collisionX st, collisionY st), actor st))"

section \<open>Repulsion between two bodies\<close>

text \<open>
  \<open>repulsionForce\<close> is imported from \<open>physicalConstants\<close>, which is not among the
  sources: it is the parameter \<open>repulsionForce\<close>, a function from two numbers to a
  number.  The two bodies are distinct objects.  \<open>repel\<close> computes in doubles; the
  two getters it reads are repeated here with their rounding, and \<open>0.85\<close> is the
  double that the literal denotes.  The result is the returned flag and the two
  bodies after the call; the bodies are \<open>None\<close> when a velocity written by the
  call is not a finite number.  That is so whenever the quotient of the weights is a
  zero, of either sign.
\<close>

definition js_horizontalCenter :: "body \<Rightarrow> jsnum" where
  "js_horizontalCenter a = js_add (Num (pos_x a)) (js_div (Num (size_x a)) (Num 2))"

definition js_bottom :: "body \<Rightarrow> jsnum" where
  "js_bottom a = js_add (Num (pos_y a)) (Num (size_y a))"

definition write_velocities :: "body \<Rightarrow> body \<Rightarrow> jsnum \<Rightarrow> jsnum \<Rightarrow> (body \<times> body) option" where
  "write_velocities this other v w =
     (case (v, w) of
        (Num x, Num y) \<Rightarrow> Some (this\<lparr>vel_x := x\<rparr>, other\<lparr>vel_x := y\<rparr>)
      | _ \<Rightarrow> None)"

definition repel ::
  "(jsnum \<Rightarrow> jsnum \<Rightarrow> jsnum) \<Rightarrow> body \<Rightarrow> body \<Rightarrow> real \<Rightarrow> bool \<times> (body \<times> body) option" where
  "repel repulsionForce this other damper =
     (if \<not> collideable this then (False, Some (this, other))
      else
        (let dist = js_sub (js_horizontalCenter this) (js_horizontalCenter other)
         in if js_lt (js_abs dist)
                 (js_mul (js_add (js_div (Num (size_x this)) (Num 2))
                                 (js_div (Num (size_x other)) (Num 2)))
                         (fl64 (85 / 100)))
            then
              (if \<not> collideable other then (True, Some (this, other))
               else if js_lt (js_abs (js_sub (js_bottom this) (js_bottom other))) (Num 15) then
                 (let force = repulsionForce dist (Num damper);
                      weightRatio = js_div (Num (weight this)) (Num (weight other))
                  in if js_lt dist (Num 0) then
                       (True, write_velocities this other
                          (js_sub (Num (vel_x this))
                             (js_mul (js_div force weightRatio)
                                (Num (if vel_x this > 0 then 2 else 1))))
                          (js_add (Num (vel_x other))
                             (js_mul (js_mul force weightRatio)
                                (Num (if vel_x other < 0 then 2 else 1)))))
                     else
                       (True, write_velocities this other
                          (js_add (Num (vel_x this))
                             (js_mul (js_div force weightRatio)
                                (Num (if vel_x this < 0 then 2 else 1))))
                          (js_sub (Num (vel_x other))
                             (js_mul (js_mul force weightRatio)
                                (Num (if vel_x other > 0 then 2 else 1))))))
               else (True, Some (this, other)))
            else (False, Some (this, other))))"

text \<open>A number that is not negative.\<close>

fun js_nonneg :: "jsnum \<Rightarrow> bool" where
  "js_nonneg (Num a) = (0 \<le> a)"
| "js_nonneg PInf = True"
| "js_nonneg NInf = False"
| "js_nonneg NaN = False"

section \<open>The documented palette and sampling, for comparison with the code\<close>

text \<open>
  The palette as the specification lists it: black, white, red, green, \<open>FF00DC\<close>,
  yellow, \<open>AAAAAA\<close> and \<open>FF8899\<close>, with the classification each stands for.
\<close>

definition rgb :: "pixel \<Rightarrow> 8 word \<times> 8 word \<times> 8 word" where
  "rgb px = (case px of (r, g, b, a) \<Rightarrow> (r, g, b))"

definition documented_palette :: "((8 word \<times> 8 word \<times> 8 word) \<times> ground) list" where
  "documented_palette =
     [((0x00, 0x00, 0x00), SOLID),
      ((0xFF, 0xFF, 0xFF), AIR),
      ((0xFF, 0x00, 0x00), PASSABLE_SOLID),
      ((0x00, 0xFF, 0x00), PASSABLE_RAMP),
      ((0xFF, 0x00, 0xDC), DROPPABLE),
      ((0xFF, 0xFF, 0x00), POINT_PASSABLE),
      ((0xAA, 0xAA, 0xAA), SOLID_NO_FEAR),
      ((0xFF, 0x88, 0x99), DROPPABLE_NO_FEAR)]"

text \<open>
  The \<open>i\<close>-th of the \<open>n + 1\<close> equally spaced points of a segment, over the reals,
  and the \<open>i\<close>-th point that \<open>testLine\<close> computes.
\<close>

definition line_point :: "point \<Rightarrow> point \<Rightarrow> nat \<Rightarrow> nat \<Rightarrow> jsnum \<times> jsnum" where
  "line_point start en n i =
     (Num (fst start + (fst en - fst start) * real i / real n),
      Num (snd start + (snd en - snd start) * real i / real n))"

definition sample_point :: "point \<Rightarrow> point \<Rightarrow> real \<Rightarrow> nat \<Rightarrow> jsnum \<times> jsnum" where
  "sample_point start en steps i =
     (sample (fst start) (fst en) i steps, sample (snd start) (snd en) i steps)"

text \<open>
  What a scan that stops at the first hit returns on a list of points: whether some
  point satisfies the predicate, and the points looked at.
\<close>

definition first_hit ::
  "(jsnum \<Rightarrow> jsnum \<Rightarrow> bool) \<Rightarrow> (jsnum \<times> jsnum) list \<Rightarrow> bool \<times> (jsnum \<times> jsnum) list" where
  "first_hit test ps =
     (list_ex (\<lambda>(x, y). test x y) ps,
      takeWhile (\<lambda>(x, y). \<not> test x y) ps @ take 1 (dropWhile (\<lambda>(x, y). \<not> test x y) ps))"

section \<open>The example scene\<close>

text \<open>
  A grid of ten columns and one row, columns 0 to 4 \<open>AIR\<close> and columns 5 to 9
  \<open>SOLID\<close>, and a body of size 2 by 2 at \<open>(2, -3)\<close> with velocity \<open>(0, 5)\<close>.
\<close>

definition c1_grid :: grid where
  "c1_grid = \<lparr>mapData = [AIR, AIR, AIR, AIR, AIR, SOLID, SOLID, SOLID, SOLID, SOLID],
              mapWidth = 10, mapHeight = 1\<rparr>"

definition c1_body :: body where
  "c1_body = \<lparr>pos_x = 2, pos_y = - 3, size_x = 2, size_y = 2, vel_x = 0, vel_y = 5,
              fallthrough = None, weight = 1, collideable = True\<rparr>"

text \<open>A body with its position erased: what \<open>move\<close> must leave alone.\<close>

definition unplaced :: "body \<Rightarrow> body" where
  "unplaced a = a\<lparr>pos_x := 0, pos_y := 0\<rparr>"

text \<open>
  A column of four passable cells, and in it a body of width zero, the size an
  \<open>Actor\<close> has before one is set.
\<close>

definition passable_column :: grid where
  "passable_column = \<lparr>mapData = [PASSABLE_SOLID, PASSABLE_SOLID, PASSABLE_SOLID, PASSABLE_SOLID],
                      mapWidth = 1, mapHeight = 4\<rparr>"

definition thin_body :: body where
  "thin_body = \<lparr>pos_x = 1 / 2, pos_y = 1, size_x = 0, size_y = 2, vel_x = 0, vel_y = 0,
                fallthrough = None, weight = 1, collideable = True\<rparr>"

text \<open>
  A body of height 2 at rest on the line \<open>y = 0\<close>, with its left side, width and
  weight given.
\<close>

definition resting :: "real \<Rightarrow> real \<Rightarrow> real \<Rightarrow> body" where
  "resting x w wt = \<lparr>pos_x = x, pos_y = 0, size_x = w, size_y = 2, vel_x = 0, vel_y = 0,
                     fallthrough = None, weight = wt, collideable = True\<rparr>"

section \<open>Facts about the classification\<close>

lemmas flag_defs =
  IS_SOLID_def IS_WALKABLE_def IS_POINT_WALKABLE_def IS_FEARLESS_def
  IS_WALLED_def IS_PASSABLE_def IS_DROPPABLE_def

lemmas ground_defs =
  AIR_def SOLID_def PASSABLE_SOLID_def PASSABLE_RAMP_def DROPPABLE_def
  POINT_PASSABLE_def SOLID_NO_FEAR_def DROPPABLE_NO_FEAR_def

section \<open>Rounding to a double\<close>

lemma fl64_zero: "fl64 0 = Num 0"
  by (simp add: fl64_def)

lemma rnd_even_near: "\<bar>of_int (rnd_even r) - r\<bar> \<le> 1 / 2"
  unfolding rnd_even_def Let_def by (auto; linarith)

lemma rnd_even_int: "rnd_even (of_int n) = n"
  by (simp add: rnd_even_def)

lemma ulp_exp_eq:
  assumes "x \<noteq> 0" "2 powr of_int e \<le> \<bar>x\<bar>" "\<bar>x\<bar> < 2 powr of_int (e + 1)"
  shows "ulp_exp x = max e (- 1022) - 52"
proof -
  have "\<lfloor>log 2 \<bar>x\<bar>\<rfloor> = e"
    using assms by (subst floor_log_eq_powr_iff) (simp_all add: add.commute)
  then show ?thesis by (simp add: ulp_exp_def)
qed

lemma fl64_rounded_bound:
  assumes "x \<noteq> 0"
  shows "\<bar>of_int (rnd_even (x / 2 powr of_int (ulp_exp x))) * 2 powr of_int (ulp_exp x)\<bar>
           \<le> \<bar>x\<bar> + 2 powr of_int (ulp_exp x) / 2"
proof -
  define u :: real where "u = 2 powr of_int (ulp_exp x)"
  have u: "0 < u" by (simp add: u_def)
  have "\<bar>of_int (rnd_even (x / u)) - x / u\<bar> \<le> 1 / 2" by (rule rnd_even_near)
  then have "\<bar>of_int (rnd_even (x / u)) - x / u\<bar> * u \<le> 1 / 2 * u"
    using u by (intro mult_right_mono) simp_all
  moreover have "of_int (rnd_even (x / u)) * u - x = (of_int (rnd_even (x / u)) - x / u) * u"
    using u by (simp add: field_simps)
  then have "\<bar>of_int (rnd_even (x / u)) - x / u\<bar> * u = \<bar>of_int (rnd_even (x / u)) * u - x\<bar>"
    using u by (simp add: abs_mult)
  ultimately have "\<bar>of_int (rnd_even (x / u)) * u - x\<bar> \<le> u / 2" by simp
  then show ?thesis unfolding u_def[symmetric] by linarith
qed

lemma fl64_finite_power:
  assumes "\<bar>x\<bar> < 2 ^ 1023"
  shows "\<exists>y. fl64 x = Num y"
proof (cases "x = 0")
  case True
  then show ?thesis by (simp add: fl64_def)
next
  case False
  define E where "E = \<lfloor>log 2 \<bar>x\<bar>\<rfloor>"
  have "2 powr of_int E \<le> \<bar>x\<bar>"
    using False floor_log_eq_powr_iff [of "\<bar>x\<bar>" 2 E] by (simp add: E_def)
  also have "\<bar>x\<bar> < 2 powr of_int 1023" using assms by (simp add: powr_numeral)
  finally have "2 powr real_of_int E < 2 powr real_of_int 1023" .
  then have "real_of_int E < real_of_int 1023"
    by (subst (asm) powr_less_cancel_iff) simp_all
  then have "E < 1023" by linarith
  then have "ulp_exp x \<le> 970" by (simp add: ulp_exp_def E_def)
  then have "2 powr of_int (ulp_exp x) \<le> (2::real) powr of_int 970"
    by (intro powr_mono) simp_all
  then have u: "2 powr of_int (ulp_exp x) \<le> (2::real) ^ 970" by (simp add: powr_numeral)
  have "\<bar>of_int (rnd_even (x / 2 powr of_int (ulp_exp x))) * 2 powr of_int (ulp_exp x)\<bar>
           \<le> \<bar>x\<bar> + 2 powr of_int (ulp_exp x) / 2"
    using False by (rule fl64_rounded_bound)
  also have "\<dots> < 2 ^ 1023 + 2 ^ 970"
  proof -
    have "0 < (2::real) ^ 970" by (rule zero_less_power) simp
    with assms u show ?thesis by linarith
  qed
  also have "\<dots> < (2::real) ^ 1024" by simp
  finally show ?thesis using False by (simp add: fl64_def Let_def)
qed

lemma fl64_finite:
  assumes "\<bar>x\<bar> < finite_range"
  shows "\<exists>y. fl64 x = Num y"
  using assms unfolding finite_range_def by (rule fl64_finite_power)

lemma small_in_finite_range: "\<bar>x\<bar> \<le> 2 ^ 64 \<Longrightarrow> \<bar>x\<bar> < finite_range"
  by (simp add: finite_range_def)

lemma finite_range_pos: "0 < finite_range"
  by (simp add: finite_range_def)

lemma fl64_eval:
  assumes "x \<noteq> 0" "2 powr of_int e \<le> \<bar>x\<bar>" "\<bar>x\<bar> < 2 powr of_int (e + 1)"
    and "- 1022 \<le> e" "e \<le> 1022"
  shows "fl64 x = Num (of_int (rnd_even (x / 2 powr of_int (e - 52))) * 2 powr of_int (e - 52))"
proof -
  have ue: "ulp_exp x = e - 52" using ulp_exp_eq [OF assms(1-3)] assms(4) by simp
  have "2 powr of_int (e + 1) \<le> (2::real) powr of_int 1023"
    using assms(5) by (intro powr_mono) simp_all
  then have "2 powr of_int (e + 1) \<le> (2::real) ^ 1023" by (simp add: powr_numeral)
  with assms(3) have "\<bar>x\<bar> < 2 ^ 1023" by linarith
  from fl64_finite_power [OF this] obtain y where y: "fl64 x = Num y" by blast
  then show ?thesis
    using assms(1) unfolding fl64_def Let_def ue by (auto split: if_splits)
qed

lemma fl64_binade_up:
  fixes k :: nat
  assumes "2 ^ k \<le> \<bar>x\<bar>" "\<bar>x\<bar> < 2 * 2 ^ k" "k \<le> 52"
  shows "fl64 x = Num (of_int (rnd_even (x * 2 ^ (52 - k))) / 2 ^ (52 - k))"
proof -
  have "0 < (2::real) ^ k" by simp
  with assms(1) have "0 < \<bar>x\<bar>" by linarith
  then have x: "x \<noteq> 0" by simp
  have 1: "2 powr of_int (int k) \<le> \<bar>x\<bar>" using assms(1) by (simp add: powr_realpow)
  have "2 powr of_int (int k + 1) = (2::real) * 2 ^ k"
    by (simp add: powr_add powr_realpow)
  with assms(2) have 2: "\<bar>x\<bar> < 2 powr of_int (int k + 1)" by simp
  have "real_of_int (int k - 52) = - real (52 - k)" using assms(3) by simp
  then have u: "2 powr of_int (int k - 52) = 1 / (2::real) ^ (52 - k)"
    by (simp only: powr_minus powr_realpow zero_less_numeral) (simp add: field_simps)
  have "fl64 x = Num (of_int (rnd_even (x / 2 powr of_int (int k - 52)))
                        * 2 powr of_int (int k - 52))"
    using assms(3) by (intro fl64_eval [OF x 1 2]) simp_all
  then show ?thesis unfolding u by simp
qed

lemma fl64_binade_down:
  fixes k :: nat
  assumes "1 \<le> \<bar>x\<bar> * 2 ^ k" "\<bar>x\<bar> * 2 ^ k < 2" "k \<le> 1022"
  shows "fl64 x = Num (of_int (rnd_even (x * 2 ^ (52 + k))) / 2 ^ (52 + k))"
proof -
  have x: "x \<noteq> 0" using assms(1) by auto
  have p: "2 powr of_int (- int k) = 1 / (2::real) ^ k"
    by (simp add: powr_minus powr_realpow field_simps)
  have 1: "2 powr of_int (- int k) \<le> \<bar>x\<bar>"
    unfolding p using assms(1) by (simp add: field_simps)
  have "real_of_int (- int k + 1) = 1 + real_of_int (- int k)" by simp
  then have "(2::real) powr of_int (- int k + 1) = 2 powr 1 * 2 powr of_int (- int k)"
    by (simp only: powr_add)
  then have "(2::real) powr of_int (- int k + 1) = 2 / 2 ^ k"
    unfolding p by simp
  then have 2: "\<bar>x\<bar> < 2 powr of_int (- int k + 1)"
    using assms(2) by (simp only: ) (simp add: field_simps)
  have "real_of_int (- int k - 52) = - real (52 + k)" by simp
  then have u: "2 powr of_int (- int k - 52) = 1 / (2::real) ^ (52 + k)"
    by (simp only: powr_minus powr_realpow zero_less_numeral) (simp add: field_simps)
  have "fl64 x = Num (of_int (rnd_even (x / 2 powr of_int (- int k - 52)))
                        * 2 powr of_int (- int k - 52))"
    using assms(3) by (intro fl64_eval [OF x 1 2]) simp_all
  then show ?thesis unfolding u by simp
qed

subsection \<open>Rounding returns a double and leaves a double as it is\<close>

lemma ulp_exp_low: "- 1074 \<le> ulp_exp x"
  by (simp add: ulp_exp_def)

lemma floor_log_bounds:
  assumes "x \<noteq> 0"
  shows "2 powr of_int \<lfloor>log 2 \<bar>x\<bar>\<rfloor> \<le> \<bar>x\<bar>" "\<bar>x\<bar> < 2 powr of_int (\<lfloor>log 2 \<bar>x\<bar>\<rfloor> + 1)"
  using assms floor_log_eq_powr_iff [of "\<bar>x\<bar>" 2 "\<lfloor>log 2 \<bar>x\<bar>\<rfloor>"] by (simp_all add: add.commute)

lemma scaled_below:
  assumes "x \<noteq> 0"
  shows "\<bar>x\<bar> / 2 powr of_int (ulp_exp x) < 2 ^ 53"
proof -
  define L where "L = \<lfloor>log 2 \<bar>x\<bar>\<rfloor>"
  have "L - 52 \<le> ulp_exp x" by (simp add: ulp_exp_def L_def)
  then have "(2::real) powr of_int (L - 52) \<le> 2 powr of_int (ulp_exp x)"
    by (intro powr_mono) simp_all
  moreover have "\<bar>x\<bar> < 2 powr of_int (L + 1)"
    unfolding L_def using assms by (rule floor_log_bounds)
  moreover have "(2::real) powr of_int (L + 1) = 2 ^ 53 * 2 powr of_int (L - 52)"
  proof -
    have "real_of_int (L + 1) = 53 + real_of_int (L - 52)" by simp
    then have "(2::real) powr of_int (L + 1) = 2 powr 53 * 2 powr of_int (L - 52)"
      by (simp only: powr_add)
    then show ?thesis by (simp add: powr_numeral)
  qed
  moreover have "(2::real) ^ 53 * 2 powr of_int (L - 52) \<le> 2 ^ 53 * 2 powr of_int (ulp_exp x)"
    using \<open>(2::real) powr of_int (L - 52) \<le> 2 powr of_int (ulp_exp x)\<close>
    by (intro mult_left_mono) simp_all
  ultimately have "\<bar>x\<bar> < 2 ^ 53 * 2 powr of_int (ulp_exp x)"
    by linarith
  then show ?thesis by (simp add: field_simps)
qed

lemma rnd_even_mono_bound:
  fixes n :: int
  assumes "\<bar>r\<bar> < of_int n"
  shows "\<bar>rnd_even r\<bar> \<le> n"
proof -
  have "\<bar>of_int (rnd_even r) - r\<bar> \<le> 1 / 2" by (rule rnd_even_near)
  with assms have "\<bar>real_of_int (rnd_even r)\<bar> < of_int n + 1 / 2" by linarith
  then have "real_of_int \<bar>rnd_even r\<bar> < of_int n + 1 / 2" by simp
  then have "real_of_int \<bar>rnd_even r\<bar> < of_int (n + 1)" by simp
  then have "\<bar>rnd_even r\<bar> < n + 1" by (simp only: of_int_less_iff)
  then show ?thesis by simp
qed

lemma is_double_zero: "is_double 0"
  unfolding is_double_def by (rule exI [of _ 0], rule exI [of _ 0]) simp

lemma powr_int_step: "(2::real) powr of_int (e + 1) = 2 * 2 powr of_int e"
proof -
  have "real_of_int (e + 1) = 1 + real_of_int e" by simp
  then have "(2::real) powr of_int (e + 1) = 2 powr 1 * 2 powr of_int e"
    by (simp only: powr_add)
  then show ?thesis by simp
qed

lemma fl64_is_double:
  assumes "fl64 x = Num y"
  shows "is_double y"
proof (cases "x = 0")
  case True
  with assms show ?thesis by (simp add: fl64_def is_double_zero)
next
  case False
  define e where "e = ulp_exp x"
  define u :: real where "u = 2 powr of_int e"
  define m where "m = rnd_even (x / u)"
  have u: "0 < u" by (simp add: u_def)
  from assms False have y: "y = of_int m * u" and fin: "\<bar>of_int m * u\<bar> < 2 ^ 1024"
    by (auto simp add: fl64_def Let_def e_def u_def m_def split: if_splits)
  have "\<bar>x\<bar> / u < 2 ^ 53" unfolding u_def e_def using False by (rule scaled_below)
  then have "\<bar>x / u\<bar> < of_int (2 ^ 53)" using u by simp
  then have m: "\<bar>m\<bar> \<le> 2 ^ 53" unfolding m_def by (rule rnd_even_mono_bound)
  have low: "- 1074 \<le> e" unfolding e_def by (rule ulp_exp_low)
  show ?thesis
  proof (cases "m = 0")
    case True
    with y show ?thesis by (simp add: is_double_zero)
  next
    case nz: False
    then have m1: "1 \<le> \<bar>m\<bar>" by simp
    have "u \<le> real_of_int \<bar>m\<bar> * u" using m1 u by simp
    also have "\<dots> = \<bar>of_int m * u\<bar>" using u by (simp add: abs_mult)
    also have "\<dots> < 2 ^ 1024" by (rule fin)
    finally have "2 powr of_int e < (2::real) powr of_int 1024"
      by (simp add: u_def powr_numeral)
    then have "real_of_int e < real_of_int 1024"
      by (subst (asm) powr_less_cancel_iff) simp_all
    then have e_hi: "e \<le> 1023" by linarith
    show ?thesis
    proof (cases "\<bar>m\<bar> < 2 ^ 53")
      case True
      have "e \<le> 971"
      proof (rule ccontr)
        assume "\<not> e \<le> 971"
        then have "972 \<le> e" by simp
        then have "(2::real) powr of_int 972 \<le> 2 powr of_int e"
          by (intro powr_mono) simp_all
        then have u972: "(2::real) ^ 972 \<le> u" by (simp add: u_def powr_numeral)
        have L: "\<lfloor>log 2 \<bar>x\<bar>\<rfloor> = e + 52"
          using \<open>972 \<le> e\<close> unfolding e_def ulp_exp_def by simp
        have "2 powr of_int (e + 52) \<le> \<bar>x\<bar>"
          using floor_log_bounds(1) [OF False] unfolding L .
        moreover have "(2::real) powr of_int (e + 52) = 2 ^ 52 * u"
        proof -
          have "real_of_int (e + 52) = 52 + real_of_int e" by simp
          then have "(2::real) powr of_int (e + 52) = 2 powr 52 * 2 powr of_int e"
            by (simp only: powr_add)
          then show ?thesis by (simp add: u_def powr_numeral)
        qed
        ultimately have "2 ^ 52 * u \<le> \<bar>x\<bar>" by simp
        then have "2 ^ 52 \<le> \<bar>x / u\<bar>" using u by (simp add: field_simps)
        moreover have "\<bar>of_int m - x / u\<bar> \<le> 1 / 2"
          unfolding m_def by (rule rnd_even_near)
        ultimately have "2 ^ 52 - 1 / 2 \<le> \<bar>real_of_int m\<bar>" by linarith
        then have "2 ^ 52 - 1 / 2 \<le> real_of_int \<bar>m\<bar>" by simp
        then have "real_of_int (2 ^ 52 - 1) < real_of_int \<bar>m\<bar>" by simp
        then have "2 ^ 52 - 1 < \<bar>m\<bar>" by (simp only: of_int_less_iff)
        then have "2 ^ 52 \<le> \<bar>m\<bar>" by simp
        then have "(2::real) ^ 52 \<le> real_of_int \<bar>m\<bar>"
          by (metis of_int_le_iff of_int_numeral of_int_power)
        then have "(2::real) ^ 52 * 2 ^ 972 \<le> real_of_int \<bar>m\<bar> * u"
          using u972 by (intro mult_mono) simp_all
        also have "\<dots> = \<bar>of_int m * u\<bar>" using u by (simp add: abs_mult)
        finally have "(2::real) ^ 52 * 2 ^ 972 < 2 ^ 1024" using fin by simp
        then show False by simp
      qed
      with True low y show ?thesis
        unfolding is_double_def u_def by blast
    next
      case False
      with m have "\<bar>m\<bar> = 2 ^ 53" by simp
      then have ms: "m = 2 ^ 53 \<or> m = - (2 ^ 53)" by linarith
      have "real_of_int \<bar>m\<bar> * u < 2 ^ 1024" using fin u by (simp add: abs_mult)
      then have "2 ^ 53 * u < 2 ^ 1024" using \<open>\<bar>m\<bar> = 2 ^ 53\<close> by simp
      then have "u < 2 ^ 971" by simp
      then have "2 powr of_int e < (2::real) powr of_int 971"
        by (simp add: u_def powr_numeral)
      then have "real_of_int e < real_of_int 971"
        by (subst (asm) powr_less_cancel_iff) simp_all
      then have e970: "e + 1 \<le> 971" by linarith
      have y2: "y = of_int (m div 2) * 2 powr of_int (e + 1)"
        using ms y unfolding powr_int_step u_def by auto
      have "\<bar>m div 2\<bar> < 2 ^ 53" using ms by auto
      with y2 e970 low show ?thesis
        unfolding is_double_def
        by (intro exI [of _ "m div 2"] exI [of _ "e + 1"]) simp
    qed
  qed
qed

lemma is_double_below:
  fixes y :: real
  assumes "y = of_int m * 2 powr of_int e" "\<bar>m\<bar> < 2 ^ 53"
  shows "\<bar>y\<bar> < 2 powr of_int (e + 53)"
proof -
  have "real_of_int \<bar>m\<bar> < real_of_int (2 ^ 53)" using assms(2) by (simp only: of_int_less_iff)
  then have "real_of_int \<bar>m\<bar> < 2 ^ 53" by simp
  then have "real_of_int \<bar>m\<bar> * 2 powr of_int e < 2 ^ 53 * 2 powr of_int e"
    by (intro mult_strict_right_mono) simp_all
  moreover have "(2::real) powr of_int (e + 53) = 2 ^ 53 * 2 powr of_int e"
  proof -
    have "real_of_int (e + 53) = 53 + real_of_int e" by simp
    then have "(2::real) powr of_int (e + 53) = 2 powr 53 * 2 powr of_int e"
      by (simp only: powr_add)
    then show ?thesis by (simp add: powr_numeral)
  qed
  moreover have "\<bar>y\<bar> = real_of_int \<bar>m\<bar> * 2 powr of_int e"
    unfolding assms(1) by (simp add: abs_mult)
  ultimately show ?thesis by (simp only: )
qed

lemma fl64_of_double:
  assumes "is_double y"
  shows "fl64 y = Num y"
proof (cases "y = 0")
  case True
  then show ?thesis by (simp add: fl64_def)
next
  case False
  from assms obtain m e where y: "y = of_int m * 2 powr of_int e" and m: "\<bar>m\<bar> < 2 ^ 53"
    and lo: "- 1074 \<le> e" and hi: "e \<le> 971"
    unfolding is_double_def by blast
  define E where "E = ulp_exp y"
  have below: "\<bar>y\<bar> < 2 powr of_int (e + 53)" using y m by (rule is_double_below)
  have "2 powr of_int \<lfloor>log 2 \<bar>y\<bar>\<rfloor> \<le> \<bar>y\<bar>" using False by (rule floor_log_bounds)
  with below have "(2::real) powr of_int \<lfloor>log 2 \<bar>y\<bar>\<rfloor> < 2 powr of_int (e + 53)" by linarith
  then have "real_of_int \<lfloor>log 2 \<bar>y\<bar>\<rfloor> < real_of_int (e + 53)"
    by (subst (asm) powr_less_cancel_iff) simp_all
  then have "\<lfloor>log 2 \<bar>y\<bar>\<rfloor> < e + 53" by (simp only: of_int_less_iff)
  with lo have Ee: "E \<le> e" by (simp add: E_def ulp_exp_def)
  define k where "k = nat (e - E)"
  have e: "e = E + int k" using Ee by (simp add: k_def)
  have "real_of_int e = real_of_int E + real k" using e by simp
  then have "(2::real) powr of_int e = 2 powr of_int E * 2 powr real k"
    by (simp only: powr_add)
  then have pe: "(2::real) powr of_int e = 2 powr of_int E * 2 ^ k"
    by (simp add: powr_realpow)
  have "y / 2 powr of_int E = of_int m * 2 ^ k"
    unfolding y pe by simp
  also have "\<dots> = of_int (m * 2 ^ k)" by simp
  finally have q: "y / 2 powr of_int E = of_int (m * 2 ^ k)" .
  have r: "of_int (rnd_even (y / 2 powr of_int E)) * 2 powr of_int E = y"
    unfolding q rnd_even_int unfolding y pe by simp
  have "(2::real) powr of_int (e + 53) \<le> 2 powr of_int 1024"
    using hi by (intro powr_mono) simp_all
  with below have "\<bar>y\<bar> < 2 ^ 1024" by (simp add: powr_numeral)
  then show ?thesis
    using False r unfolding fl64_def Let_def E_def by simp
qed

lemma is_double_twice:
  assumes "is_double y" "\<bar>2 * y\<bar> < 2 ^ 1024"
  shows "is_double (2 * y)"
proof -
  from assms obtain m e where y: "y = of_int m * 2 powr of_int e" and m: "\<bar>m\<bar> < 2 ^ 53"
    and lo: "- 1074 \<le> e" and hi: "e \<le> 971"
    unfolding is_double_def by blast
  show ?thesis
  proof (cases "e = 971")
    case False
    have "2 * y = of_int m * 2 powr of_int (e + 1)" unfolding powr_int_step y by simp
    with m lo hi False show ?thesis
      unfolding is_double_def by (intro exI [of _ m] exI [of _ "e + 1"]) simp
  next
    case True
    have "\<bar>2 * real_of_int m\<bar> * 2 ^ 971 < 2 ^ 1024"
      using assms(2) unfolding y True by (simp add: powr_numeral abs_mult)
    then have "\<bar>2 * real_of_int m\<bar> < 2 ^ 53" by simp
    then have "real_of_int \<bar>2 * m\<bar> < real_of_int (2 ^ 53)" by simp
    then have "\<bar>2 * m\<bar> < 2 ^ 53" by (simp only: of_int_less_iff)
    moreover have "2 * y = of_int (2 * m) * 2 powr of_int e" unfolding y by simp
    ultimately show ?thesis using lo hi
      unfolding is_double_def by (intro exI [of _ "2 * m"] exI [of _ e]) simp
  qed
qed

lemma js_mul_one:
  assumes "fl64 x = Num y"
  shows "js_mul (Num y) (Num 1) = Num y"
  using fl64_of_double [OF fl64_is_double [OF assms]] by simp

lemma js_mul_two:
  assumes "fl64 x = Num y" "\<bar>2 * y\<bar> < 2 ^ 1024"
  shows "js_mul (Num y) (Num 2) = Num (2 * y)"
  using fl64_of_double [OF is_double_twice [OF fl64_is_double [OF assms(1)] assms(2)]]
  by (simp add: mult.commute)

section \<open>Construction\<close>

lemma ground_values:
  "SOLID = 0x13" "AIR = 0x40" "PASSABLE_SOLID = 0x22" "PASSABLE_RAMP = 0x22"
  "DROPPABLE = 0x62" "POINT_PASSABLE = 0x44" "SOLID_NO_FEAR = 0x1B" "DROPPABLE_NO_FEAR = 0x6A"
  by (simp_all add: ground_defs flag_defs)

lemma decode_pixel_palette: "decode_pixel px = map_of documented_palette (rgb px)"
  by (cases px) (simp add: decode_pixel.simps documented_palette_def rgb_def)

lemma decode_loop_Inr_iff:
  "(decode_loop w p ps = Inr ts) = (map decode_pixel ps = map Some ts)"
proof (induction ps arbitrary: p ts)
  case Nil
  then show ?case by auto
next
  case (Cons px rest)
  show ?case
  proof (cases "decode_pixel px")
    case None
    then show ?thesis by (cases ts) (auto split: prod.splits)
  next
    case (Some t)
    show ?thesis
    proof (cases "decode_loop w (Suc p) rest")
      case (Inl e)
      then have "map decode_pixel rest \<noteq> map Some ts'" for ts'
        using Cons.IH [of "Suc p" ts'] by simp
      with Inl Some show ?thesis by (cases ts) auto
    next
      case (Inr ts')
      then have eq: "map decode_pixel rest = map Some ts'"
        using Cons.IH [of "Suc p" ts'] by simp
      have "inj (Some :: ground \<Rightarrow> ground option)" by (simp add: inj_def)
      then have "(map Some ts' = map Some us) = (ts' = us)" for us :: "ground list"
        by (simp add: inj_map_eq_map)
      with Inr Some eq show ?thesis by (cases ts) auto
    qed
  qed
qed

lemma decode_loop_first_bad:
  assumes "k < length ps" and "decode_pixel (ps ! k) = None"
    and "\<forall>q<k. decode_pixel (ps ! q) \<noteq> None"
  shows "decode_loop w p ps =
           (case ps ! k of (r, g, b, a) \<Rightarrow> Inl (InvalidMapData ((p + k) mod w) ((p + k) div w) r g b))"
  using assms
proof (induction ps arbitrary: p k)
  case Nil
  then show ?case by simp
next
  case (Cons px rest)
  show ?case
  proof (cases k)
    case 0
    with Cons.prems show ?thesis by simp
  next
    case (Suc j)
    with Cons.prems have j: "j < length rest" "decode_pixel (rest ! j) = None"
      "\<forall>q<j. decode_pixel (rest ! q) \<noteq> None" by auto
    from Cons.prems Suc have "decode_pixel px \<noteq> None" by auto
    then obtain t where t: "decode_pixel px = Some t" by auto
    show ?thesis
      using Cons.IH [OF j, of "Suc p"] Suc t by (simp split: prod.splits)
  qed
qed

lemma decode_loop_Inl_bad:
  "decode_loop w p ps = Inl e \<Longrightarrow> \<exists>px\<in>set ps. decode_pixel px = None"
  by (induction ps arbitrary: p) (auto split: option.splits sum.splits)

lemma decode_loop_total_bad:
  assumes "\<exists>px\<in>set ps. decode_pixel px = None"
  shows "\<exists>e. decode_loop w p ps = Inl e"
proof (cases "decode_loop w p ps")
  case (Inl e)
  then show ?thesis by blast
next
  case (Inr ts)
  then have "map decode_pixel ps = map Some ts" by (simp add: decode_loop_Inr_iff)
  then have "\<forall>px\<in>set ps. decode_pixel px \<noteq> None"
    by (metis (no_types, lifting) imageE image_eqI list.set_map option.distinct(1))
  with assms show ?thesis by blast
qed

lemma Map_constructor_Inr_iff:
  "(Map_constructor (Some im) = Inr m) =
     (0 < img_width im \<and> 0 < img_height im
      \<and> map decode_pixel (img_data im) = map Some (mapData m)
      \<and> mapWidth m = img_width im \<and> mapHeight m = img_height im \<and> grid.more m = ())"
proof (cases "decode_loop (img_width im) 0 (img_data im)")
  case (Inl e)
  then have "map decode_pixel (img_data im) \<noteq> map Some ts" for ts
    using decode_loop_Inr_iff [of "img_width im" 0 "img_data im" ts] by simp
  with Inl show ?thesis by (simp add: Map_constructor_def)
next
  case (Inr ts)
  then have eq: "map decode_pixel (img_data im) = map Some ts"
    by (simp add: decode_loop_Inr_iff)
  have "inj (Some :: ground \<Rightarrow> ground option)" by (simp add: inj_def)
  then have "(map Some ts = map Some us) = (ts = us)" for us :: "ground list"
    by (simp add: inj_map_eq_map)
  with Inr eq show ?thesis by (cases m) (auto simp: Map_constructor_def)
qed

lemma pixel_coordinates:
  assumes "k < w * h"
  shows "k mod w < w \<and> k div w < h \<and> (k div w) * w + k mod w = (k::nat)"
proof -
  from assms have "0 < w" by (cases w) auto
  moreover from assms have "k div w < h" by (simp add: less_mult_imp_div_less mult.commute)
  ultimately show ?thesis by simp
qed

lemma constructor_all_palette:
  assumes ok: "\<forall>px\<in>set (img_data im). map_of documented_palette (rgb px) \<noteq> None"
    and size: "0 < img_width im" "0 < img_height im"
  shows "\<exists>m. Map_constructor (Some im) = Inr m
               \<and> mapWidth m = img_width im \<and> mapHeight m = img_height im
               \<and> map Some (mapData m) = map (\<lambda>px. map_of documented_palette (rgb px)) (img_data im)"
proof -
  have "decode_loop (img_width im) 0 (img_data im) \<noteq> Inl e" for e
    using decode_loop_Inl_bad [of "img_width im" 0 "img_data im" e] ok
    unfolding decode_pixel_palette by blast
  then obtain ts where ts: "decode_loop (img_width im) 0 (img_data im) = Inr ts"
    by (cases "decode_loop (img_width im) 0 (img_data im)") auto
  then have "map decode_pixel (img_data im) = map Some ts"
    by (simp add: decode_loop_Inr_iff)
  then have "map Some ts = map decode_pixel (img_data im)" by simp
  also have "\<dots> = map (\<lambda>px. map_of documented_palette (rgb px)) (img_data im)"
    by (simp add: decode_pixel_palette)
  finally have "map Some ts = map (\<lambda>px. map_of documented_palette (rgb px)) (img_data im)" .
  with ts size show ?thesis
    by (simp add: Map_constructor_def)
qed

lemma constructor_first_bad:
  assumes k: "k < length (img_data im)" and px: "img_data im ! k = (r, g, b, a)"
    and bad: "map_of documented_palette (r, g, b) = None"
    and before: "\<forall>q<k. map_of documented_palette (rgb (img_data im ! q)) \<noteq> None"
    and len: "length (img_data im) = img_width im * img_height im"
  shows "Map_constructor (Some im)
           = Inl (InvalidMapData (k mod img_width im) (k div img_width im) r g b)"
proof -
  from k len have size: "0 < img_width im" "0 < img_height im"
    by (cases "img_width im"; cases "img_height im"; simp)+
  have "decode_pixel (img_data im ! k) = None"
    using px bad by (simp add: decode_pixel_palette rgb_def)
  moreover have "\<forall>q<k. decode_pixel (img_data im ! q) \<noteq> None"
    using before by (simp add: decode_pixel_palette)
  ultimately have "decode_loop (img_width im) 0 (img_data im) =
           (case img_data im ! k of (r, g, b, a) \<Rightarrow>
              Inl (InvalidMapData ((0 + k) mod img_width im) ((0 + k) div img_width im) r g b))"
    using k by (intro decode_loop_first_bad)
  with size show ?thesis
    by (simp add: Map_constructor_def px)
qed

lemma first_bad_exists:
  assumes "\<exists>px\<in>set ps. map_of documented_palette (rgb px) = None"
  shows "\<exists>k<length ps. map_of documented_palette (rgb (ps ! k)) = None
           \<and> (\<forall>q<k. map_of documented_palette (rgb (ps ! q)) \<noteq> None)"
proof -
  let ?P = "\<lambda>i. i < length ps \<and> map_of documented_palette (rgb (ps ! i)) = None"
  from assms obtain k where k: "?P k"
    by (metis in_set_conv_nth)
  define j where "j = (LEAST i. ?P i)"
  have j: "?P j"
    unfolding j_def using k by (rule LeastI)
  have "\<not> ?P q" if "q < j" for q
    using that unfolding j_def by (rule not_less_Least)
  with j have "\<forall>q<j. map_of documented_palette (rgb (ps ! q)) \<noteq> None"
    by auto
  with j show ?thesis by blast
qed

lemma constructor_fails_iff:
  assumes len: "length (img_data im) = img_width im * img_height im"
  shows "(\<exists>px\<in>set (img_data im). map_of documented_palette (rgb px) = None)
     = (\<exists>x y r g b. Map_constructor (Some im) = Inl (InvalidMapData x y r g b))"
proof
  assume "\<exists>px\<in>set (img_data im). map_of documented_palette (rgb px) = None"
  from first_bad_exists [OF this] obtain k where
    k: "k < length (img_data im)" "map_of documented_palette (rgb (img_data im ! k)) = None"
      "\<forall>q<k. map_of documented_palette (rgb (img_data im ! q)) \<noteq> None"
    by blast
  obtain r g b a where px: "img_data im ! k = (r, g, b, a)"
    by (cases "img_data im ! k") auto
  with k(2) have "map_of documented_palette (r, g, b) = None" by (simp add: rgb_def)
  from constructor_first_bad [OF k(1) px this k(3) len]
  show "\<exists>x y r g b. Map_constructor (Some im) = Inl (InvalidMapData x y r g b)"
    by blast
next
  assume "\<exists>x y r g b. Map_constructor (Some im) = Inl (InvalidMapData x y r g b)"
  then obtain e where "decode_loop (img_width im) 0 (img_data im) = Inl e"
    by (auto simp: Map_constructor_def split: sum.splits if_splits)
  then have "\<exists>px\<in>set (img_data im). decode_pixel px = None"
    by (rule decode_loop_Inl_bad)
  then show "\<exists>px\<in>set (img_data im). map_of documented_palette (rgb px) = None"
    by (simp add: decode_pixel_palette)
qed

lemma map_of_palette_simps:
  "map_of documented_palette (0x00, 0x00, 0x00) = Some SOLID"
  "map_of documented_palette (0xFF, 0xFF, 0xFF) = Some AIR"
  "map_of documented_palette (0xFF, 0x00, 0x00) = Some PASSABLE_SOLID"
  "map_of documented_palette (0x00, 0xFF, 0x00) = Some PASSABLE_RAMP"
  "map_of documented_palette (0xFF, 0x00, 0xDC) = Some DROPPABLE"
  "map_of documented_palette (0xFF, 0xFF, 0x00) = Some POINT_PASSABLE"
  "map_of documented_palette (0xAA, 0xAA, 0xAA) = Some SOLID_NO_FEAR"
  "map_of documented_palette (0xFF, 0x88, 0x99) = Some DROPPABLE_NO_FEAR"
  "map_of documented_palette (0x01, 0x02, 0x03) = None"
  by (simp_all add: documented_palette_def)

text \<open>
  Claim C4.  Decoding agrees with the documented palette on every pixel.  When every
  pixel of a non-empty image has a palette colour the constructor returns the grid of
  their classifications, with the image's width and height.  It fails with the error
  that names a pixel exactly when some pixel has no palette colour, and then there is
  no grid; the error carries the column, the row and the three channel values of the
  first such pixel in row-major order.
\<close>

theorem Map_constructor_palette:
  assumes len: "length (img_data im) = img_width im * img_height im"
    and size: "0 < img_width im" "0 < img_height im"
  shows
    "(\<forall>px. decode_pixel px = map_of documented_palette (rgb px))
     \<and> ((\<forall>px\<in>set (img_data im). map_of documented_palette (rgb px) \<noteq> None) \<longrightarrow>
          (\<exists>m. Map_constructor (Some im) = Inr m
               \<and> mapWidth m = img_width im \<and> mapHeight m = img_height im
               \<and> map Some (mapData m) = map (\<lambda>px. map_of documented_palette (rgb px)) (img_data im)))
     \<and> ((\<exists>px\<in>set (img_data im). map_of documented_palette (rgb px) = None)
          = (\<exists>x y r g b. Map_constructor (Some im) = Inl (InvalidMapData x y r g b)))
     \<and> (\<forall>k r g b a.
           k < length (img_data im) \<and> img_data im ! k = (r, g, b, a)
           \<and> map_of documented_palette (r, g, b) = None
           \<and> (\<forall>q<k. map_of documented_palette (rgb (img_data im ! q)) \<noteq> None) \<longrightarrow>
             Map_constructor (Some im)
               = Inl (InvalidMapData (k mod img_width im) (k div img_width im) r g b)
             \<and> k mod img_width im < img_width im \<and> k div img_width im < img_height im
             \<and> (k div img_width im) * img_width im + k mod img_width im = k)"
  (is "?A \<and> ?B \<and> ?C \<and> ?D")
proof -
  have a: ?A by (simp add: decode_pixel_palette)
  have b: ?B using constructor_all_palette [of im] size by blast
  have c: ?C using len by (rule constructor_fails_iff)
  have d: ?D
  proof (intro allI impI)
    fix k r g b a
    assume h: "k < length (img_data im) \<and> img_data im ! k = (r, g, b, a)
           \<and> map_of documented_palette (r, g, b) = None
           \<and> (\<forall>q<k. map_of documented_palette (rgb (img_data im ! q)) \<noteq> None)"
    then have 1: "Map_constructor (Some im)
               = Inl (InvalidMapData (k mod img_width im) (k div img_width im) r g b)"
      using len by (intro constructor_first_bad [where a = a]) simp_all
    from h len have "k < img_width im * img_height im" by simp
    from pixel_coordinates [OF this] 1
    show "Map_constructor (Some im)
               = Inl (InvalidMapData (k mod img_width im) (k div img_width im) r g b)
             \<and> k mod img_width im < img_width im \<and> k div img_width im < img_height im
             \<and> (k div img_width im) * img_width im + k mod img_width im = k"
      by simp
  qed
  from a b c d show ?thesis by (intro conjI)
qed

theorem Map_constructor_palette_witness:
  "Map_constructor (Some \<lparr>img_width = 2, img_height = 1,
       img_data = [(0x00, 0x00, 0x00, 0xFF), (0xFF, 0xFF, 0xFF, 0xFF)]\<rparr>)
     = Inr \<lparr>mapData = [SOLID, AIR], mapWidth = 2, mapHeight = 1\<rparr>
   \<and> Map_constructor (Some \<lparr>img_width = 2, img_height = 2,
       img_data = [(0x00, 0x00, 0x00, 0xFF), (0xFF, 0x00, 0xDC, 0xFF),
                   (0xFF, 0x88, 0x99, 0xFF), (0x01, 0x02, 0x03, 0xFF)]\<rparr>)
     = Inl (InvalidMapData 1 1 0x01 0x02 0x03)"
proof -
  define good :: image where "good = \<lparr>img_width = 2, img_height = 1,
       img_data = [(0x00, 0x00, 0x00, 0xFF), (0xFF, 0xFF, 0xFF, 0xFF)]\<rparr>"
  define bad :: image where "bad = \<lparr>img_width = 2, img_height = 2,
       img_data = [(0x00, 0x00, 0x00, 0xFF), (0xFF, 0x00, 0xDC, 0xFF),
                   (0xFF, 0x88, 0x99, 0xFF), (0x01, 0x02, 0x03, 0xFF)]\<rparr>"
  have len_good: "length (img_data good) = img_width good * img_height good"
    "0 < img_width good" "0 < img_height good"
    by (simp_all add: good_def)
  have all_good: "\<forall>px\<in>set (img_data good). map_of documented_palette (rgb px) \<noteq> None"
    by (simp add: good_def rgb_def map_of_palette_simps)
  from Map_constructor_palette [OF len_good, THEN conjunct2, THEN conjunct1, THEN mp, OF all_good]
  obtain m where m: "Map_constructor (Some good) = Inr m" "mapWidth m = img_width good"
    "mapHeight m = img_height good"
    "map Some (mapData m) = map (\<lambda>px. map_of documented_palette (rgb px)) (img_data good)"
    by blast
  from m(4) have "map Some (mapData m) = [Some SOLID, Some AIR]"
    by (simp add: good_def rgb_def map_of_palette_simps)
  then have "mapData m = [SOLID, AIR]" by (auto simp: map_eq_Cons_conv)
  with m(1-3) have g: "Map_constructor (Some good)
      = Inr \<lparr>mapData = [SOLID, AIR], mapWidth = 2, mapHeight = 1\<rparr>"
    by (cases m) (simp add: good_def)
  have len_bad: "length (img_data bad) = img_width bad * img_height bad"
    "0 < img_width bad" "0 < img_height bad"
    by (simp_all add: bad_def)
  have pre: "3 < length (img_data bad) \<and> img_data bad ! 3 = (0x01, 0x02, 0x03, 0xFF)
           \<and> map_of documented_palette (0x01, 0x02, 0x03) = None
           \<and> (\<forall>q<3. map_of documented_palette (rgb (img_data bad ! q)) \<noteq> None)"
    by (simp add: bad_def rgb_def map_of_palette_simps less_Suc_eq numeral_3_eq_3 all_conj_distrib)
  from Map_constructor_palette [OF len_bad, THEN conjunct2, THEN conjunct2, THEN conjunct2,
      rule_format, OF pre]
  have "Map_constructor (Some bad) = Inl (InvalidMapData 1 1 0x01 0x02 0x03)"
    by (simp add: bad_def)
  with g show ?thesis by (simp add: good_def bad_def)
qed

section \<open>Point queries\<close>

lemma getPixelData_Num:
  "getPixelData m (Num x) (Num y) =
     (if \<lfloor>x\<rfloor> < 0 \<or> \<lfloor>y\<rfloor> < 0 \<or> int (mapWidth m) \<le> \<lfloor>x\<rfloor> \<or> int (mapHeight m) \<le> \<lfloor>y\<rfloor>
      then Some SOLID
      else if nat \<lfloor>y\<rfloor> * mapWidth m + nat \<lfloor>x\<rfloor> < length (mapData m)
      then Some (mapData m ! (nat \<lfloor>y\<rfloor> * mapWidth m + nat \<lfloor>x\<rfloor>))
      else None)"
proof -
  have 1: "(real (mapWidth m) \<le> real_of_int \<lfloor>x\<rfloor>) = (int (mapWidth m) \<le> \<lfloor>x\<rfloor>)"
    by (metis of_int_le_iff of_int_of_nat_eq)
  have 2: "(real (mapHeight m) \<le> real_of_int \<lfloor>y\<rfloor>) = (int (mapHeight m) \<le> \<lfloor>y\<rfloor>)"
    by (metis of_int_le_iff of_int_of_nat_eq)
  show ?thesis
    by (simp add: getPixelData_def Let_def 1 2)
qed

lemma cell_index_bound:
  assumes "0 \<le> i" "i < int w" "0 \<le> j" "j < int h"
  shows "nat j * w + nat i < w * h"
proof -
  have "nat j * w + nat i < nat j * w + w" using assms by simp
  also have "\<dots> = Suc (nat j) * w" by simp
  also have "\<dots> \<le> h * w" using assms by (intro mult_le_mono1) simp
  finally show ?thesis by (simp add: mult.commute)
qed

lemma getPixelData_NaN: "getPixelData m NaN NaN = None"
  by (simp add: getPixelData_def)

lemma getPixelData_infinite:
  assumes "x = PInf \<or> x = NInf \<or> y = PInf \<or> y = NInf"
  shows "getPixelData m x y = Some SOLID"
  using assms by (cases x; cases y) (auto simp: getPixelData_def Let_def)

lemma two_cell_image:
  "Map_constructor (Some \<lparr>img_width = 2, img_height = 1,
       img_data = [(0x00, 0x00, 0x00, 0xFF), (0xFF, 0xFF, 0xFF, 0xFF)]\<rparr>)
     = Inr \<lparr>mapData = [SOLID, AIR], mapWidth = 2, mapHeight = 1\<rparr>"
  by (simp add: Map_constructor_def decode_pixel.simps)

lemma getPixelData_on_grid:
  assumes built: "Map_constructor (Some im) = Inr m"
    and len: "length (img_data im) = img_width im * img_height im"
  shows
    "getPixelData m (Num x) (Num y) =
       (if \<lfloor>x\<rfloor> < 0 \<or> \<lfloor>y\<rfloor> < 0 \<or> int (mapWidth m) \<le> \<lfloor>x\<rfloor> \<or> int (mapHeight m) \<le> \<lfloor>y\<rfloor>
        then Some SOLID
        else Some (mapData m ! (nat \<lfloor>y\<rfloor> * mapWidth m + nat \<lfloor>x\<rfloor>)))
     \<and> (0 \<le> \<lfloor>x\<rfloor> \<and> \<lfloor>x\<rfloor> < int (mapWidth m) \<and> 0 \<le> \<lfloor>y\<rfloor> \<and> \<lfloor>y\<rfloor> < int (mapHeight m) \<longrightarrow>
          nat \<lfloor>y\<rfloor> * mapWidth m + nat \<lfloor>x\<rfloor> < length (mapData m)
          \<and> Some (mapData m ! (nat \<lfloor>y\<rfloor> * mapWidth m + nat \<lfloor>x\<rfloor>))
              = decode_pixel (img_data im ! (nat \<lfloor>y\<rfloor> * img_width im + nat \<lfloor>x\<rfloor>)))"
proof -
  from built have m: "map decode_pixel (img_data im) = map Some (mapData m)"
    "mapWidth m = img_width im" "mapHeight m = img_height im"
    by (simp_all add: Map_constructor_Inr_iff)
  from m(1) have "length (img_data im) = length (mapData m)"
    by (rule map_eq_imp_length_eq)
  with len m have size: "length (mapData m) = mapWidth m * mapHeight m" by simp
  have inb: "nat \<lfloor>y\<rfloor> * mapWidth m + nat \<lfloor>x\<rfloor> < length (mapData m)"
    if "0 \<le> \<lfloor>x\<rfloor>" "\<lfloor>x\<rfloor> < int (mapWidth m)" "0 \<le> \<lfloor>y\<rfloor>" "\<lfloor>y\<rfloor> < int (mapHeight m)"
    using cell_index_bound [OF that] size by simp
  have cell: "Some (mapData m ! k) = decode_pixel (img_data im ! k)" if "k < length (mapData m)" for k
  proof -
    have "map Some (mapData m) ! k = map decode_pixel (img_data im) ! k" by (simp add: m(1))
    with that \<open>length (img_data im) = length (mapData m)\<close> show ?thesis by simp
  qed
  have first: "getPixelData m (Num x) (Num y) =
       (if \<lfloor>x\<rfloor> < 0 \<or> \<lfloor>y\<rfloor> < 0 \<or> int (mapWidth m) \<le> \<lfloor>x\<rfloor> \<or> int (mapHeight m) \<le> \<lfloor>y\<rfloor>
        then Some SOLID
        else Some (mapData m ! (nat \<lfloor>y\<rfloor> * mapWidth m + nat \<lfloor>x\<rfloor>)))"
    using inb by (simp add: getPixelData_Num not_less not_le)
  have second: "nat \<lfloor>y\<rfloor> * mapWidth m + nat \<lfloor>x\<rfloor> < length (mapData m)
          \<and> Some (mapData m ! (nat \<lfloor>y\<rfloor> * mapWidth m + nat \<lfloor>x\<rfloor>))
              = decode_pixel (img_data im ! (nat \<lfloor>y\<rfloor> * img_width im + nat \<lfloor>x\<rfloor>))"
    if "0 \<le> \<lfloor>x\<rfloor> \<and> \<lfloor>x\<rfloor> < int (mapWidth m) \<and> 0 \<le> \<lfloor>y\<rfloor> \<and> \<lfloor>y\<rfloor> < int (mapHeight m)"
    using inb that cell m(2) by auto
  from first second show ?thesis by blast
qed

text \<open>
  Claim C3.  A \<open>NaN\<close> coordinate is not in \<open>[0, width)\<close> or \<open>[0, height)\<close>,
  but every comparison of the guard is false on it: the query goes on to read
  \<open>mapData\<close> at a \<open>NaN\<close> index and returns \<open>undefined\<close>, which is not
  \<open>SOLID\<close> and of which no flag is set.  This is so on a grid that the constructor
  has built, and on every other grid.
\<close>

theorem getPixelData_NaN_undefined:
  "Map_constructor (Some \<lparr>img_width = 2, img_height = 1,
       img_data = [(0x00, 0x00, 0x00, 0xFF), (0xFF, 0xFF, 0xFF, 0xFF)]\<rparr>)
     = Inr \<lparr>mapData = [SOLID, AIR], mapWidth = 2, mapHeight = 1\<rparr>
   \<and> getPixelData \<lparr>mapData = [SOLID, AIR], mapWidth = 2, mapHeight = 1\<rparr> NaN NaN = None
   \<and> getPixelData m NaN NaN = None
   \<and> getPixelData m NaN NaN \<noteq> Some SOLID
   \<and> \<not> isSolid (getPixelData m NaN NaN)
   \<and> \<not> isWalled (getPixelData m NaN NaN)"
  using two_cell_image by (simp add: getPixelData_NaN isSolid_def isWalled_def bits_def)

section \<open>Sampling a line\<close>

lemma js_sub_Num: "js_sub (Num a) (Num b) = (if b = 0 then Num a else if a = 0 then Num (- b) else fl64 (a - b))"
  by (simp add: js_sub_def)

lemma js_sub_finite:
  assumes "\<bar>e - s\<bar> < finite_range"
  shows "\<exists>d. js_sub (Num e) (Num s) = Num d"
  using fl64_finite [OF assms] by (simp add: js_sub_Num)

lemma sample_zero_steps: "sample s e 0 0 = NaN"
  by (cases "js_sub (Num e) (Num s)") (simp_all add: sample_def fl64_zero js_inf_def)

lemma sample_start:
  assumes "steps \<noteq> 0" and "\<bar>e - s\<bar> < finite_range"
  shows "sample s e 0 steps = Num s"
proof -
  from js_sub_finite [OF assms(2)] obtain d where "js_sub (Num e) (Num s) = Num d" by blast
  then show ?thesis using assms(1) by (simp add: sample_def fl64_zero)
qed

lemma testLine_loop_zero:
  "testLine_loop start en test 0 0 = (test NaN NaN, [(NaN, NaN)])"
  by (subst testLine_loop.simps, subst testLine_loop.simps)
     (simp add: sample_zero_steps)

text \<open>
  Claim C2.  With \<open>steps = 0\<close> the loop runs once, for \<open>i = 0\<close>, and the offset it
  adds to the start point is \<open>0 / 0\<close>: the predicate is called once, on
  \<open>(NaN, NaN)\<close> and not on the start point, and that call decides the result.  A
  probe for passable terrain at a point that lies in a passable cell therefore
  answers no.
\<close>

theorem testLine_zero_steps:
  "testLine_calls start en test 0 = [(NaN, NaN)]
   \<and> testLine start en test 0 = test NaN NaN
   \<and> isPassable (getPixelData \<lparr>mapData = [PASSABLE_SOLID], mapWidth = 1, mapHeight = 1\<rparr> (Num 0) (Num 0))
   \<and> \<not> testLine (0, 0) (0, 0)
         (\<lambda>x y. isPassable
            (getPixelData \<lparr>mapData = [PASSABLE_SOLID], mapWidth = 1, mapHeight = 1\<rparr> x y)) 0"
  by (simp add: testLine_calls_def testLine_def testLine_loop_zero getPixelData_def
      isPassable_def bits_def ground_defs flag_defs)

subsection \<open>The points of a probe with at least one step\<close>

lemma first_hit_Nil: "first_hit test [] = (False, [])"
  by (simp add: first_hit_def)

lemma first_hit_Cons:
  "first_hit test (p # ps) =
     (if test (fst p) (snd p) then (True, [p])
      else (fst (first_hit test ps), p # snd (first_hit test ps)))"
  by (cases p) (simp add: first_hit_def)

lemma testLine_loop_step:
  assumes "real i \<le> steps"
  shows "testLine_loop start en test steps i =
     (if test (fst (sample_point start en steps i)) (snd (sample_point start en steps i))
      then (True, [sample_point start en steps i])
      else (fst (testLine_loop start en test steps (Suc i)),
            sample_point start en steps i # snd (testLine_loop start en test steps (Suc i))))"
  using assms
  by (subst testLine_loop.simps) (simp add: sample_point_def Let_def split: prod.split)

lemma testLine_loop_end: "testLine_loop start en test (real n) (Suc n) = (False, [])"
  by (subst testLine_loop.simps) simp

lemma testLine_loop_scan:
  assumes "i \<le> Suc n"
  shows "testLine_loop start en test (real n) i =
           first_hit test (map (sample_point start en (real n)) [i..<Suc n])"
  using assms
proof (induction "Suc n - i" arbitrary: i)
  case 0
  then have "i = Suc n" by simp
  then show ?case by (simp add: testLine_loop_end first_hit_Nil)
next
  case (Suc k)
  then have le: "i \<le> n" by simp
  then have upt: "[i..<Suc n] = i # [Suc i..<Suc n]" by (simp add: upt_conv_Cons)
  from le have le': "real i \<le> real n" by simp
  have ih: "testLine_loop start en test (real n) (Suc i) =
              first_hit test (map (sample_point start en (real n)) [Suc i..<Suc n])"
    using Suc le by (intro Suc(1)) auto
  show ?case
    unfolding upt list.map first_hit_Cons testLine_loop_step[OF le'] ih ..
qed

text \<open>
  Claim C9.  With \<open>steps = n\<close>, \<open>1 \<le> n < 2 ^ 53\<close>, the probe looks at the \<open>n + 1\<close> points
  \<open>start + (end - start) * i / n\<close> for \<open>i = 0, \<dots>, n\<close>, each coordinate
  computed in doubles, the difference, the product, the quotient and the sum rounded
  in turn.  It takes them in order of increasing \<open>i\<close>, calls the predicate on each
  up to and including the first that satisfies it, and returns whether one does.  The
  first point is the start point exactly, unless \<open>end - start\<close> overflows.
\<close>

theorem testLine_rounded_samples:
  assumes "1 \<le> n" and "n < 2 ^ 53"
  shows
    "(let pts = map (\<lambda>i. (sample (fst start) (fst en) i (real n),
                            sample (snd start) (snd en) i (real n))) [0..<Suc n]
      in length pts = n + 1
         \<and> (\<bar>fst en - fst start\<bar> < finite_range \<and> \<bar>snd en - snd start\<bar> < finite_range
              \<longrightarrow> pts ! 0 = (Num (fst start), Num (snd start)))
         \<and> testLine start en test (real n) = list_ex (\<lambda>(x, y). test x y) pts
         \<and> testLine_calls start en test (real n)
             = takeWhile (\<lambda>(x, y). \<not> test x y) pts
               @ take 1 (dropWhile (\<lambda>(x, y). \<not> test x y) pts))"
proof -
  from assms have n: "real n \<noteq> 0" by simp
  have pts: "map (\<lambda>i. (sample (fst start) (fst en) i (real n),
                        sample (snd start) (snd en) i (real n))) [0..<Suc n]
             = map (sample_point start en (real n)) [0..<Suc n]"
    by (simp add: sample_point_def del: upt_Suc)
  have loop: "testLine_loop start en test (real n) 0
                = first_hit test (map (sample_point start en (real n)) [0..<Suc n])"
    by (rule testLine_loop_scan) simp
  have p0: "map (sample_point start en (real n)) [0..<Suc n] ! 0 = (Num (fst start), Num (snd start))"
    if "\<bar>fst en - fst start\<bar> < finite_range \<and> \<bar>snd en - snd start\<bar> < finite_range"
    using that n by (simp add: nth_map_upt sample_point_def sample_start del: upt_Suc)
  show ?thesis
    unfolding Let_def pts testLine_def testLine_calls_def loop
    using p0 by (simp add: first_hit_def del: upt_Suc)
qed

theorem testLine_rounded_samples_witness:
  "testLine (0, 0) (2, 4) (\<lambda>x y. x = Num 1) 2
   \<and> testLine_calls (0, 0) (2, 4) (\<lambda>x y. x = Num 1) 2 = [(Num 0, Num 0), (Num 1, Num 2)]
   \<and> \<not> testLine (0, 0) (2, 4) (\<lambda>x y. x = Num 3) 2
   \<and> testLine_calls (0, 0) (2, 4) (\<lambda>x y. x = Num 3) 2
       = [(Num 0, Num 0), (Num 1, Num 2), (Num 2, Num 4)]"
proof -
  have le: "1 \<le> (2::nat)" "(2::nat) < 2 ^ 53" by simp_all
  have r: "fl64 1 = Num 1" "fl64 2 = Num 2" "fl64 4 = Num 4" "fl64 8 = Num 8"
    by (subst fl64_binade_up [where k = 0], simp_all add: rnd_even_def)
       (subst fl64_binade_up [where k = 1], simp_all add: rnd_even_def,
        subst fl64_binade_up [where k = 2], simp_all add: rnd_even_def,
        subst fl64_binade_up [where k = 3], simp_all add: rnd_even_def)
  have pts: "map (\<lambda>i. (sample (fst (0, 0)) (fst (2, 4)) i (real 2),
                         sample (snd (0, 0)) (snd (2, 4)) i (real 2))) [0..<Suc 2]
             = [(Num 0, Num 0), (Num 1, Num 2), (Num 2, Num 4)]"
    by (simp add: sample_def js_sub_Num r upt_rec fl64_zero)
  from testLine_rounded_samples [OF le, of "(0, 0)" "(2, 4)" "\<lambda>x y. x = Num 1"]
       testLine_rounded_samples [OF le, of "(0, 0)" "(2, 4)" "\<lambda>x y. x = Num 3"]
  show ?thesis
    unfolding Let_def pts by simp
qed

lemma tenth_to_two_samples:
  "sample (3602879701896397 / 36028797018963968) 2 0 3 = Num (3602879701896397 / 36028797018963968)"
  "sample (3602879701896397 / 36028797018963968) 2 (Suc 0) 3 = Num (6605279453476727 / 9007199254740992)"
  "sample (3602879701896397 / 36028797018963968) 2 (Suc (Suc 0)) 3 = Num (3077459745369839 / 2251799813685248)"
  "sample (3602879701896397 / 36028797018963968) 2 (Suc (Suc (Suc 0))) 3 = Num (9007199254740991 / 4503599627370496)"
  "sample 0 0 i 3 = Num 0"
proof -
  have d: "js_sub (Num 2) (Num (3602879701896397 / 36028797018963968)) = (Num (4278419646001971 / 2251799813685248))"
    by (simp add: js_sub_Num, subst fl64_binade_up [where k = 0], simp_all add: rnd_even_def)
  have p1: "js_mul (Num (4278419646001971 / 2251799813685248)) (Num 1) = (Num (4278419646001971 / 2251799813685248))"
    by (simp, subst fl64_binade_up [where k = 0], simp_all add: rnd_even_def)
  have q1: "js_div (Num (4278419646001971 / 2251799813685248)) (Num 3) = (Num (1426139882000657 / 2251799813685248))"
    by (simp, subst fl64_binade_down [where k = 1], simp_all add: rnd_even_def)
  have r1: "js_add (Num (3602879701896397 / 36028797018963968)) (Num (1426139882000657 / 2251799813685248)) = (Num (6605279453476727 / 9007199254740992))"
    by (simp, subst fl64_binade_down [where k = 1], simp_all add: rnd_even_def)
  have p2: "js_mul (Num (4278419646001971 / 2251799813685248)) (Num 2) = (Num (4278419646001971 / 1125899906842624))"
    by (simp, subst fl64_binade_up [where k = 1], simp_all add: rnd_even_def)
  have q2: "js_div (Num (4278419646001971 / 1125899906842624)) (Num 3) = (Num (1426139882000657 / 1125899906842624))"
    by (simp, subst fl64_binade_up [where k = 0], simp_all add: rnd_even_def)
  have r2: "js_add (Num (3602879701896397 / 36028797018963968)) (Num (1426139882000657 / 1125899906842624)) = (Num (3077459745369839 / 2251799813685248))"
    by (simp, subst fl64_binade_up [where k = 0], simp_all add: rnd_even_def)
  have p3: "js_mul (Num (4278419646001971 / 2251799813685248)) (Num 3) = (Num (1604407367250739 / 281474976710656))"
    by (simp, subst fl64_binade_up [where k = 2], simp_all add: rnd_even_def)
  have q3: "js_div (Num (1604407367250739 / 281474976710656)) (Num 3) = (Num (8556839292003941 / 4503599627370496))"
    by (simp, subst fl64_binade_up [where k = 0], simp_all add: rnd_even_def)
  have r3: "js_add (Num (3602879701896397 / 36028797018963968)) (Num (8556839292003941 / 4503599627370496)) = (Num (9007199254740991 / 4503599627370496))"
    by (simp, subst fl64_binade_up [where k = 0], simp_all add: rnd_even_def)
  have "\<bar>2 - (3602879701896397::real) / 36028797018963968\<bar> < finite_range"
    by (rule small_in_finite_range) simp
  then show "sample (3602879701896397 / 36028797018963968) 2 0 3 = Num (3602879701896397 / 36028797018963968)"
    by (intro sample_start) simp_all
  show "sample (3602879701896397 / 36028797018963968) 2 (Suc 0) 3 = Num (6605279453476727 / 9007199254740992)"
    by (simp add: sample_def d p1 q1 r1 del: js_add.simps js_mul.simps js_div.simps)
  show "sample (3602879701896397 / 36028797018963968) 2 (Suc (Suc 0)) 3 = Num (3077459745369839 / 2251799813685248)"
    by (simp add: sample_def d p2 q2 r2 del: js_add.simps js_mul.simps js_div.simps)
  show "sample (3602879701896397 / 36028797018963968) 2 (Suc (Suc (Suc 0))) 3 = Num (9007199254740991 / 4503599627370496)"
    by (simp add: sample_def d p3 q3 r3 del: js_add.simps js_mul.simps js_div.simps)
  show "sample 0 0 i 3 = Num 0"
    by (simp add: sample_def js_sub_Num fl64_zero)
qed

lemma tenth_to_two_loop:
  "testLine_loop (3602879701896397 / 36028797018963968, 0) (2, 0) (\<lambda>x y. x = Num 2) 3 0
   = (False, [(Num (3602879701896397 / 36028797018963968), Num 0),
              (Num (6605279453476727 / 9007199254740992), Num 0),
              (Num (3077459745369839 / 2251799813685248), Num 0),
              (Num (9007199254740991 / 4503599627370496), Num 0)])"
proof -
  let ?loop = "testLine_loop (3602879701896397 / 36028797018963968, 0) (2, 0) (\<lambda>x y. x = Num 2) 3"
  note s = tenth_to_two_samples
  have 4: "?loop (Suc (Suc (Suc (Suc 0)))) = (False, [])"
    by (subst testLine_loop.simps) simp
  have 3: "?loop (Suc (Suc (Suc 0))) = (False, [(Num (9007199254740991 / 4503599627370496), Num 0)])"
    by (subst testLine_loop.simps) (simp add: s 4 Let_def)
  have 2: "?loop (Suc (Suc 0)) = (False, [(Num (3077459745369839 / 2251799813685248), Num 0),
              (Num (9007199254740991 / 4503599627370496), Num 0)])"
    by (subst testLine_loop.simps) (simp add: s 3 Let_def)
  have 1: "?loop (Suc 0) = (False, [(Num (6605279453476727 / 9007199254740992), Num 0),
              (Num (3077459745369839 / 2251799813685248), Num 0),
              (Num (9007199254740991 / 4503599627370496), Num 0)])"
    by (subst testLine_loop.simps) (simp add: s 2 Let_def)
  show ?thesis
    by (subst testLine_loop.simps) (simp add: s 1 Let_def)
qed

text \<open>
  Claim C9, as it was stated, has the last point equal to the end point.  From
  \<open>(0.1, 0)\<close> to \<open>(2, 0)\<close> in three steps the last point that the code computes
  is \<open>(1.9999999999999998, 0)\<close>: a predicate that holds at \<open>x = 2\<close> only is
  satisfied by the end point, the fourth of the equally spaced points, and the probe
  does not find it.  Here \<open>0.1\<close> is the double \<open>3602879701896397 / 2 ^ 55\<close>.
\<close>

theorem testLine_samples_counterexample:
  "\<not> testLine (3602879701896397 / 36028797018963968, 0) (2, 0) (\<lambda>x y. x = Num 2) 3
   \<and> last (testLine_calls (3602879701896397 / 36028797018963968, 0) (2, 0) (\<lambda>x y. x = Num 2) 3)
       = (Num (9007199254740991 / 4503599627370496), Num 0)
   \<and> line_point (3602879701896397 / 36028797018963968, 0) (2, 0) 3 3 = (Num 2, Num 0)
   \<and> list_ex (\<lambda>(x, y). x = Num 2)
        (map (line_point (3602879701896397 / 36028797018963968, 0) (2, 0) 3) [0, 1, 2, 3])"
  by (simp add: testLine_def testLine_calls_def tenth_to_two_loop line_point_def)

section \<open>Properties of \<open>move\<close>\<close>

lemma unplaced_pos_x: "unplaced (a\<lparr>pos_x := v\<rparr>) = unplaced a"
  by (simp add: unplaced_def)

lemma unplaced_pos_y: "unplaced (a\<lparr>pos_y := v\<rparr>) = unplaced a"
  by (simp add: unplaced_def)

lemma unplaced_fields:
  assumes "unplaced b = unplaced a"
  shows "vel_x b = vel_x a \<and> vel_y b = vel_y a \<and> size_x b = size_x a \<and> size_y b = size_y a
         \<and> fallthrough b = fallthrough a \<and> weight b = weight a \<and> collideable b = collideable a"
proof -
  have "vel_x (unplaced b) = vel_x (unplaced a)" "vel_y (unplaced b) = vel_y (unplaced a)"
    "size_x (unplaced b) = size_x (unplaced a)" "size_y (unplaced b) = size_y (unplaced a)"
    "fallthrough (unplaced b) = fallthrough (unplaced a)" "weight (unplaced b) = weight (unplaced a)"
    "collideable (unplaced b) = collideable (unplaced a)"
    using assms by simp_all
  then show ?thesis by (simp add: unplaced_def)
qed

lemma move_vertical_unplaced:
  "unplaced (actor (move_vertical m eps mag st)) = unplaced (actor st)"
  by (simp add: move_vertical_def Let_def unplaced_pos_y)

lemma slope_step_unplaced:
  "unplaced (actor (slope_step m eps st)) = unplaced (actor st)"
  by (simp add: slope_step_def Let_def unplaced_pos_y)

lemma wall_step_unplaced:
  "unplaced (actor (wall_step m eps mag st)) = unplaced (actor st)"
  by (simp add: wall_step_def Let_def unplaced_pos_x)

lemma move_horizontal_unplaced:
  "unplaced (actor (move_horizontal m eps mag st)) = unplaced (actor st)"
  by (simp add: move_horizontal_def slope_step_unplaced wall_step_unplaced)

lemma move_loop_stop:
  "\<not> (real i < mag \<and> (movingX st \<or> movingY st)) \<Longrightarrow> move_loop m eps mag i st = st"
  by (subst move_loop.simps) (erule if_not_P)

lemma move_loop_step:
  "real i < mag \<and> (movingX st \<or> movingY st) \<Longrightarrow>
     move_loop m eps mag i st
       = move_loop m eps mag (Suc i) (move_horizontal m eps mag (move_vertical m eps mag st))"
  by (subst move_loop.simps) (erule if_P)

lemma move_loop_unplaced:
  "unplaced (actor (move_loop m eps mag i st)) = unplaced (actor st)"
proof (induction m eps mag i st rule: move_loop.induct)
  case (1 m eps magnitude i st)
  show ?case
  proof (cases "real i < magnitude \<and> (movingX st \<or> movingY st)")
    case True
    from "1.IH" [OF True] show ?thesis
      by (simp only: move_loop_step [OF True] move_horizontal_unplaced move_vertical_unplaced)
  next
    case False
    then show ?thesis using move_loop_stop [OF False] by simp
  qed
qed

text \<open>
  Claim C10.  \<open>move\<close> writes the position of the body and nothing else of it: the
  two velocity components, the size, the weight, the fallthrough marker and the
  collideable flag of the body it returns are those of the body it was given.  The grid
  is an argument that \<open>move\<close> only reads; no function it calls stores into
  \<open>mapData\<close>.
\<close>

theorem move_writes_position_only:
  "vel_x (snd (move m eps a)) = vel_x a
   \<and> vel_y (snd (move m eps a)) = vel_y a
   \<and> size_x (snd (move m eps a)) = size_x a
   \<and> size_y (snd (move m eps a)) = size_y a
   \<and> fallthrough (snd (move m eps a)) = fallthrough a
   \<and> weight (snd (move m eps a)) = weight a
   \<and> collideable (snd (move m eps a)) = collideable a"
proof -
  have "unplaced (snd (move m eps a)) = unplaced a"
    by (simp add: move_def Let_def move_loop_unplaced)
  then show ?thesis by (rule unplaced_fields)
qed

lemma move_vertical_rising:
  assumes "vel_y (actor st) < 0"
  shows "collisionY (move_vertical m eps mag st) = collisionY st"
  using assms by (simp add: move_vertical_def Let_def)

lemma slope_step_collisionY: "collisionY (slope_step m eps st) = collisionY st"
  by (simp add: slope_step_def Let_def)

lemma wall_step_collisionY: "collisionY (wall_step m eps mag st) = collisionY st"
  by (simp add: wall_step_def Let_def)

lemma move_horizontal_collisionY:
  "collisionY (move_horizontal m eps mag st) = collisionY st"
  by (simp add: move_horizontal_def slope_step_collisionY wall_step_collisionY)

lemma move_loop_rising:
  assumes "vel_y (actor st) < 0"
  shows "collisionY (move_loop m eps mag i st) = collisionY st"
  using assms
proof (induction m eps mag i st rule: move_loop.induct)
  case (1 m eps magnitude i st)
  show ?case
  proof (cases "real i < magnitude \<and> (movingX st \<or> movingY st)")
    case True
    have "unplaced (actor (move_horizontal m eps magnitude (move_vertical m eps magnitude st)))
            = unplaced (actor st)"
      by (simp only: move_horizontal_unplaced move_vertical_unplaced)
    then have "vel_y (actor (move_horizontal m eps magnitude (move_vertical m eps magnitude st)))
                 = vel_y (actor st)"
      by (rule unplaced_fields [THEN conjunct2, THEN conjunct1])
    with "1.prems"
    have "vel_y (actor (move_horizontal m eps magnitude (move_vertical m eps magnitude st))) < 0"
      by simp
    from "1.IH" [OF True this] "1.prems" show ?thesis
      by (simp only: move_loop_step [OF True] move_horizontal_collisionY move_vertical_rising)
  next
    case False
    then show ?thesis using move_loop_stop [OF False] by simp
  qed
qed

text \<open>
  Claim C8.  A body whose vertical velocity is negative when \<open>move\<close> is called comes
  back with the vertical collision flag unset, on every grid.
\<close>

theorem move_rising_no_vertical_collision:
  assumes "vel_y a < 0"
  shows "\<not> snd (fst (move m eps a))"
proof -
  let ?st = "\<lparr>actor = a, movingX = (vel_x a \<noteq> 0), movingY = (vel_y a \<noteq> 0),
                  collisionX = False, collisionY = False\<rparr>"
  have "vel_y (actor ?st) < 0" using assms by simp
  then have "collisionY (move_loop m eps (of_int \<lceil>sqrt (vel_x a * vel_x a + vel_y a * vel_y a)\<rceil>) 0 ?st)
               = collisionY ?st"
    by (rule move_loop_rising)
  then show ?thesis by (simp add: move_def Let_def)
qed

theorem move_rising_no_vertical_collision_witness:
  "vel_y (c1_body\<lparr>vel_y := - 5\<rparr>) < 0
   \<and> \<not> snd (fst (move c1_grid (1 / 1000) (c1_body\<lparr>vel_y := - 5\<rparr>)))"
proof -
  have h: "vel_y (c1_body\<lparr>vel_y := - 5\<rparr>) < 0" by simp
  from move_rising_no_vertical_collision [OF h] h show ?thesis by blast
qed

lemma sqrt_25: "sqrt 25 = 5"
  by (rule real_sqrt_unique) simp_all

lemma testLine_hit_at_start:
  assumes "0 < steps" and "test (Num (fst start)) (Num (snd start))"
    and "\<bar>fst en - fst start\<bar> < finite_range" and "\<bar>snd en - snd start\<bar> < finite_range"
  shows "testLine start en test steps"
  using assms unfolding testLine_def
  by (subst testLine_loop.simps) (simp add: sample_start)

lemma getPixelData_above:
  assumes "y < 0"
  shows "getPixelData m (Num x) (Num y) = Some SOLID"
proof -
  from assms have "\<lfloor>y\<rfloor> < 0" by (simp add: floor_less_iff)
  then show ?thesis by (simp add: getPixelData_Num)
qed

lemma isSolid_SOLID: "isSolid (Some SOLID)"
  by (simp add: isSolid_def bits_def ground_defs flag_defs)

lemma solid_ground_above_grid:
  assumes "bottom a + off < 0" and "\<bar>right a - eps - left a\<bar> < finite_range"
  shows "actorIsOnSolidGround m eps a off"
  unfolding actorIsOnSolidGround_def
  by (rule testLine_hit_at_start)
     (simp_all add: getPixelData_above [OF assms(1)] isSolid_SOLID assms(2) finite_range_pos)

lemma c1_vertical:
  assumes "0 < eps" and "eps \<le> 1"
  shows "move_vertical c1_grid eps 5
           \<lparr>actor = c1_body, movingX = False, movingY = True, collisionX = False, collisionY = False\<rparr>
         = \<lparr>actor = c1_body, movingX = False, movingY = False, collisionX = False, collisionY = True\<rparr>"
proof -
  let ?a1 = "c1_body\<lparr>pos_y := - 2\<rparr>"
  have above: "bottom ?a1 + (- eps) < 0" using assms by (simp add: bottom_def c1_body_def)
  have "right ?a1 - eps - left ?a1 = 2 - eps" by (simp add: right_def left_def c1_body_def)
  moreover have "\<bar>2 - eps\<bar> \<le> 2 ^ 64" using assms by simp
  then have "\<bar>2 - eps\<bar> < finite_range" by (rule small_in_finite_range)
  ultimately have width: "\<bar>right ?a1 - eps - left ?a1\<bar> < finite_range"
    by (simp only:)
  have solid: "actorIsOnSolidGround c1_grid eps ?a1 (- eps)"
    using above width by (rule solid_ground_above_grid)
  have "\<lfloor>- 2 - eps\<rfloor> = - 3" using assms by (intro floor_unique) simp_all
  then have snap: "real_of_int \<lfloor>- 2 - eps\<rfloor> = - 3" by simp
  have a1: "c1_body\<lparr>pos_y := pos_y c1_body + vel_y c1_body / 5\<rparr> = ?a1"
    by (simp add: c1_body_def)
  have restore: "?a1\<lparr>pos_y := - 3\<rparr> = c1_body" by (simp add: c1_body_def)
  have vy: "\<not> vel_y ?a1 < 0" "\<not> vel_y c1_body < 0" "pos_y ?a1 = - 2"
    by (simp_all add: c1_body_def)
  show ?thesis
    unfolding move_vertical_def Let_def
    by (simp add: a1 solid snap restore vy)
qed

lemma move_c1:
  assumes "0 < eps" and "eps \<le> 1"
  shows "move c1_grid eps c1_body = ((False, True), c1_body)"
proof -
  let ?st0 = "\<lparr>actor = c1_body, movingX = False, movingY = True,
               collisionX = False, collisionY = False\<rparr>"
  let ?st1 = "\<lparr>actor = c1_body, movingX = False, movingY = False,
               collisionX = False, collisionY = True\<rparr>"
  have mag: "real_of_int \<lceil>sqrt (vel_x c1_body * vel_x c1_body + vel_y c1_body * vel_y c1_body)\<rceil> = 5"
    by (simp add: c1_body_def sqrt_25)
  have init: "\<lparr>actor = c1_body, movingX = (vel_x c1_body \<noteq> 0), movingY = (vel_y c1_body \<noteq> 0),
               collisionX = False, collisionY = False\<rparr> = ?st0"
    by (simp add: c1_body_def)
  have step: "move_horizontal c1_grid eps 5 (move_vertical c1_grid eps 5 ?st0) = ?st1"
    by (simp add: c1_vertical [OF assms] move_horizontal_def)
  have "move_loop c1_grid eps 5 0 ?st0 = move_loop c1_grid eps 5 (Suc 0) ?st1"
    by (subst move_loop_step) (simp_all add: step)
  also have "\<dots> = ?st1"
    by (rule move_loop_stop) simp
  finally have "move_loop c1_grid eps 5 0 ?st0 = ?st1" .
  then show ?thesis
    unfolding move_def Let_def mag init by simp
qed

text \<open>
  Claim C1, as the code has it.  In the example scene, for every \<open>EPSILON\<close> with
  \<open>0 < EPSILON \<le> 1\<close>, one call of \<open>move\<close> returns the vertical collision flag set
  and the horizontal one unset, and the body is back where it started: \<open>y = -3\<close>, so
  its bottom is \<open>-1\<close> and not \<open>0\<close>.  The first sub-step puts the bottom at \<open>0\<close>; the
  ground probe at \<open>bottom - EPSILON\<close> is above the grid, where every point is
  \<open>SOLID\<close>, and the snap to \<open>floor (y - EPSILON)\<close> takes \<open>y\<close> from \<open>-2\<close> to \<open>-3\<close>.
\<close>

theorem move_falling_example:
  assumes "0 < eps" and "eps \<le> 1"
  shows "fst (move c1_grid eps c1_body) = (False, True)
         \<and> snd (move c1_grid eps c1_body) = c1_body
         \<and> pos_y (snd (move c1_grid eps c1_body)) = - 3
         \<and> bottom (snd (move c1_grid eps c1_body)) = - 1"
  by (simp add: move_c1 [OF assms]) (simp add: c1_body_def bottom_def)

theorem move_falling_example_witness:
  "(0::real) < 1 / 1000 \<and> (1::real) / 1000 \<le> 1
   \<and> fst (move c1_grid (1 / 1000) c1_body) = (False, True)
   \<and> bottom (snd (move c1_grid (1 / 1000) c1_body)) = - 1"
proof -
  have h: "(0::real) < 1 / 1000" "(1::real) / 1000 \<le> 1" by simp_all
  from move_falling_example [OF h] h show ?thesis by blast
qed

text \<open>
  The claim as it was stated, a vertical collision with the bottom at \<open>0\<close>, fails in
  the example scene for \<open>EPSILON = 1/1000\<close>.
\<close>

theorem move_falling_example_counterexample:
  "\<not> (snd (fst (move c1_grid (1 / 1000) c1_body))
       \<and> bottom (snd (move c1_grid (1 / 1000) c1_body)) = 0)"
proof -
  have "move c1_grid (1 / 1000) c1_body = ((False, True), c1_body)"
    by (rule move_c1) simp_all
  then show ?thesis by (simp add: c1_body_def bottom_def)
qed

section \<open>Ground contact of a body of width zero\<close>

lemma passable_column_cell:
  assumes "0 \<le> x" "x < 1" "0 \<le> y" "y < 4"
  shows "getPixelData passable_column (Num x) (Num y) = Some PASSABLE_SOLID"
proof -
  have x: "\<lfloor>x\<rfloor> = 0" using assms by (intro floor_unique) simp_all
  have y: "0 \<le> \<lfloor>y\<rfloor>" "\<lfloor>y\<rfloor> < 4" using assms by (simp_all add: floor_less_iff)
  have "length (mapData passable_column) = 4" by (simp add: passable_column_def)
  with y have k: "nat \<lfloor>y\<rfloor> < length (mapData passable_column)"
    by linarith
  then have "mapData passable_column ! nat \<lfloor>y\<rfloor> \<in> set (mapData passable_column)"
    by (rule nth_mem)
  then have cell: "mapData passable_column ! nat \<lfloor>y\<rfloor> = PASSABLE_SOLID"
    by (simp add: passable_column_def)
  have w: "mapWidth passable_column = 1" "mapHeight passable_column = 4"
    by (simp_all add: passable_column_def)
  from y k cell show ?thesis
    by (simp add: getPixelData_Num x w)
qed

lemma PASSABLE_SOLID_flags:
  "isWalkable (Some PASSABLE_SOLID)" "isPassable (Some PASSABLE_SOLID)"
  "\<not> isSolid (Some PASSABLE_SOLID)" "\<not> isPointWalkable (Some PASSABLE_SOLID)"
  by (simp_all add: isWalkable_def isPassable_def isSolid_def isPointWalkable_def bits_def
      ground_defs flag_defs)

lemma undefined_flags: "\<not> isPassable None" "\<not> isSolid None"
  by (simp_all add: isPassable_def isSolid_def bits_def)

lemma thin_body_geometry:
  "left thin_body = 1 / 2" "right thin_body = 1 / 2" "bottom thin_body = 3"
  "horizontalCenter thin_body = 1 / 2" "fallthrough thin_body = None" "vel_y thin_body = 0"
  by (simp_all add: left_def right_def bottom_def horizontalCenter_def thin_body_def)

lemma thin_body_walkable:
  "actorIsOnWalkableGround passable_column (1 / 1024) thin_body 0"
proof -
  have "\<bar>(1::real) / 2 - 1 / 1024 - 1 / 2\<bar> < finite_range"
    by (rule small_in_finite_range) simp
  then have "testLine (left thin_body, bottom thin_body + 0)
          (right thin_body - 1 / 1024, bottom thin_body + 0)
          (\<lambda>x y. isWalkable (getPixelData passable_column x y)) 2"
    by (intro testLine_hit_at_start)
       (simp_all add: thin_body_geometry passable_column_cell PASSABLE_SOLID_flags
          finite_range_pos)
  then show ?thesis by (simp add: actorIsOnWalkableGround_def)
qed

lemma thin_body_samples:
  "sample (1 / 2) (511 / 1024) 0 2 = Num (1 / 2)"
  "sample (1 / 2) (511 / 1024) (Suc 0) 2 = Num (1023 / 2048)"
  "sample (1 / 2) (511 / 1024) (Suc (Suc 0)) 2 = Num (511 / 1024)"
  "sample 3 3 0 2 = Num 3" "sample 3 3 (Suc 0) 2 = Num 3" "sample 3 3 (Suc (Suc 0)) 2 = Num 3"
proof -
  have r: "fl64 (- (1 / 1024)) = Num (- (1 / 1024))" "fl64 (- (1 / 2048)) = Num (- (1 / 2048))"
    "fl64 (- (1 / 512)) = Num (- (1 / 512))"
    "fl64 (1023 / 2048) = Num (1023 / 2048)" "fl64 (511 / 1024) = Num (511 / 1024)"
    by (subst fl64_binade_down [where k = 10], simp_all add: rnd_even_def)
       (subst fl64_binade_down [where k = 11], simp_all add: rnd_even_def,
        subst fl64_binade_down [where k = 9], simp_all add: rnd_even_def,
        subst fl64_binade_down [where k = 2], simp_all add: rnd_even_def,
        subst fl64_binade_down [where k = 2], simp_all add: rnd_even_def)
  have "\<bar>(511::real) / 1024 - 1 / 2\<bar> < finite_range" "\<bar>(3::real) - 3\<bar> < finite_range"
    by (rule small_in_finite_range, simp)+
  then show "sample (1 / 2) (511 / 1024) 0 2 = Num (1 / 2)" "sample 3 3 0 2 = Num 3"
    by (intro sample_start; simp)+
  show "sample (1 / 2) (511 / 1024) (Suc 0) 2 = Num (1023 / 2048)"
    "sample (1 / 2) (511 / 1024) (Suc (Suc 0)) 2 = Num (511 / 1024)"
    by (simp_all add: sample_def js_sub_Num r)
  show "sample 3 3 (Suc 0) 2 = Num 3" "sample 3 3 (Suc (Suc 0)) 2 = Num 3"
    by (simp_all add: sample_def js_sub_Num fl64_zero)
qed

lemma thin_body_not_solid:
  "\<not> actorIsOnSolidGround passable_column (1 / 1024) thin_body 0"
proof -
  let ?test = "\<lambda>x y. isSolid (getPixelData passable_column x y)"
  let ?loop = "testLine_loop (1 / 2, 3) (511 / 1024, 3) ?test 2"
  note s = thin_body_samples
  have c: "\<not> ?test (Num (1 / 2)) (Num 3)" "\<not> ?test (Num (1023 / 2048)) (Num 3)"
    "\<not> ?test (Num (511 / 1024)) (Num 3)"
    by (simp_all add: passable_column_cell PASSABLE_SOLID_flags)
  have 3: "?loop (Suc (Suc (Suc 0))) = (False, [])"
    by (subst testLine_loop.simps) simp
  have 2: "?loop (Suc (Suc 0)) = (False, [(Num (511 / 1024), Num 3)])"
    by (subst testLine_loop.simps) (simp add: s c 3 Let_def)
  have 1: "?loop (Suc 0) = (False, [(Num (1023 / 2048), Num 3), (Num (511 / 1024), Num 3)])"
    by (subst testLine_loop.simps) (simp add: s c 2 Let_def)
  have 0: "?loop 0 = (False, [(Num (1 / 2), Num 3), (Num (1023 / 2048), Num 3),
                              (Num (511 / 1024), Num 3)])"
    by (subst testLine_loop.simps) (simp add: s c 1 Let_def)
  show ?thesis
    by (simp add: actorIsOnSolidGround_def testLine_def thin_body_geometry 0)
qed

lemma thin_body_probe_calls:
  "testLine_calls (left thin_body, bottom thin_body - 2)
     (right thin_body - 1 / 1024, bottom thin_body - 2)
     (\<lambda>x y. isPassable (getPixelData passable_column x y)) (right thin_body - left thin_body)
   = [(NaN, NaN)]"
  by (simp add: thin_body_geometry testLine_calls_def testLine_loop_zero)

lemma thin_body_not_in_passable:
  "\<not> actorIsInPassable passable_column (1 / 1024) thin_body"
proof -
  have p: "getPixelData passable_column (Num (1 / 2)) (Num 1) = Some PASSABLE_SOLID"
    by (rule passable_column_cell) simp_all
  show ?thesis
    by (simp add: actorIsInPassable_def thin_body_geometry p PASSABLE_SOLID_flags
        testLine_def testLine_loop_zero getPixelData_NaN undefined_flags)
qed

text \<open>
  Claim C5.  In the column of passable cells the body of width zero does not move
  upward, is on walkable ground and is not on solid ground, and the point of its span
  two units above its bottom lies in a passable cell.  The probe for passable terrain
  runs \<open>testLine\<close> with \<open>steps = right - left = 0\<close>, which tests \<open>(NaN, NaN)\<close>
  and not that point, so \<open>actorIsInPassable\<close> answers no and \<open>isGrounded\<close>
  answers yes, with \<open>EPSILON = 1/1024\<close>.
\<close>

theorem isGrounded_zero_width_in_passable:
  "\<not> vel_y thin_body < 0
   \<and> actorIsOnWalkableGround passable_column (1 / 1024) thin_body 0
   \<and> \<not> actorIsOnSolidGround passable_column (1 / 1024) thin_body 0
   \<and> fallthrough thin_body = None
   \<and> isPassable (getPixelData passable_column (Num (left thin_body)) (Num (bottom thin_body - 2)))
   \<and> testLine_calls (left thin_body, bottom thin_body - 2)
        (right thin_body - 1 / 1024, bottom thin_body - 2)
        (\<lambda>x y. isPassable (getPixelData passable_column x y)) (right thin_body - left thin_body)
      = [(NaN, NaN)]
   \<and> \<not> actorIsInPassable passable_column (1 / 1024) thin_body
   \<and> isGrounded passable_column (1 / 1024) thin_body"
proof -
  have p: "getPixelData passable_column (Num (1 / 2)) (Num 1) = Some PASSABLE_SOLID"
    by (rule passable_column_cell) simp_all
  have start: "isPassable (getPixelData passable_column (Num (left thin_body))
                 (Num (bottom thin_body - 2)))"
    by (simp add: thin_body_geometry p PASSABLE_SOLID_flags)
  have grounded: "isGrounded passable_column (1 / 1024) thin_body"
    using thin_body_walkable thin_body_not_solid thin_body_not_in_passable
    by (simp add: isGrounded_def thin_body_geometry)
  show ?thesis
    using thin_body_walkable thin_body_not_solid thin_body_not_in_passable
      thin_body_probe_calls start grounded
    by (simp add: thin_body_geometry)
qed

section \<open>Properties of \<open>repel\<close>\<close>

lemma rnd_even_nonneg: "0 \<le> r \<Longrightarrow> 0 \<le> rnd_even r"
  by (auto simp: rnd_even_def Let_def)

lemma fl64_nonneg:
  assumes "0 \<le> x"
  shows "js_nonneg (fl64 x)"
proof (cases "x = 0")
  case True
  then show ?thesis by (simp add: fl64_def)
next
  case False
  with assms have x: "0 < x" by simp
  have "0 \<le> x / 2 powr of_int (ulp_exp x)" using x by simp
  then have "0 \<le> rnd_even (x / 2 powr of_int (ulp_exp x))" by (rule rnd_even_nonneg)
  then have "0 \<le> real_of_int (rnd_even (x / 2 powr of_int (ulp_exp x))) * 2 powr of_int (ulp_exp x)"
    by simp
  with x show ?thesis by (simp add: fl64_def Let_def)
qed

lemma js_nonneg_mul_factor:
  assumes "js_nonneg x" and "0 < m"
  shows "js_nonneg (js_mul x (Num m))"
  using assms by (cases x) (simp_all add: fl64_nonneg js_inf_def)

lemma js_nonneg_mul_force:
  assumes "0 < f" and "js_nonneg y"
  shows "js_nonneg (js_mul (Num f) y)"
  using assms by (cases y) (simp_all add: fl64_nonneg js_inf_def)

lemma js_nonneg_div_force:
  assumes "0 < f" and "js_nonneg y"
  shows "js_nonneg (js_div (Num f) y)"
  using assms by (cases y) (simp_all add: fl64_nonneg js_inf_def)

lemma js_nonneg_ratio:
  assumes "0 < a" and "0 < b"
  shows "js_nonneg (js_div (Num a) (Num b))"
  using assms by (simp add: fl64_nonneg)

lemma repel_flag:
  "fst (repel rf a b damper)
     = (collideable a
        \<and> js_lt (js_abs (js_sub (js_horizontalCenter a) (js_horizontalCenter b)))
                 (js_mul (js_add (js_div (Num (size_x a)) (Num 2)) (js_div (Num (size_x b)) (Num 2)))
                         (fl64 (85 / 100))))"
  by (simp add: repel_def Let_def)

lemma repel_unchanged:
  assumes "\<not> (collideable a
        \<and> js_lt (js_abs (js_sub (js_horizontalCenter a) (js_horizontalCenter b)))
                 (js_mul (js_add (js_div (Num (size_x a)) (Num 2)) (js_div (Num (size_x b)) (Num 2)))
                         (fl64 (85 / 100)))
        \<and> collideable b
        \<and> js_lt (js_abs (js_sub (js_bottom a) (js_bottom b))) (Num 15))"
  shows "snd (repel rf a b damper) = Some (a, b)"
  using assms by (auto simp add: repel_def Let_def)

lemma small_doubles:
  "fl64 1 = Num 1" "fl64 2 = Num 2" "fl64 11 = Num 11" "fl64 (- 10) = Num (- 10)"
  "fl64 (- 1) = Num (- 1)"
  "fl64 (17 / 20) = Num (7656119366529843 / 9007199254740992)"
  "fl64 (7656119366529843 / 4503599627370496) = Num (7656119366529843 / 4503599627370496)"
  by (subst fl64_binade_up [where k = 0], simp_all add: rnd_even_def)
     (subst fl64_binade_up [where k = 1], simp_all add: rnd_even_def,
      subst fl64_binade_up [where k = 3], simp_all add: rnd_even_def,
      subst fl64_binade_up [where k = 3], simp_all add: rnd_even_def,
      subst fl64_binade_up [where k = 0], simp_all add: rnd_even_def,
      subst fl64_binade_down [where k = 1], simp_all add: rnd_even_def,
      subst fl64_binade_up [where k = 0], simp_all add: rnd_even_def)

lemma threshold_two_and_two:
  "js_mul (js_add (js_div (Num (size_x (resting x 2 wt))) (Num 2))
                  (js_div (Num (size_x (resting x' 2 wt'))) (Num 2))) (fl64 (85 / 100))
     = Num (7656119366529843 / 4503599627370496)"
  by (simp add: small_doubles resting_def)

lemma centre_of_resting:
  "js_horizontalCenter (resting 0 2 wt) = Num 1"
  "js_horizontalCenter (resting 1 2 wt) = Num 2"
  "js_horizontalCenter (resting 10 2 wt) = Num 11"
  "js_horizontalCenter (resting (7656119366529843 / 4503599627370496) 2 wt)
     = Num (3039929748475085 / 1125899906842624)"
     apply (simp_all add: js_horizontalCenter_def resting_def small_doubles)
  apply (subst fl64_binade_up [where k = 1], simp_all add: rnd_even_def)
  done

lemma distances:
  "js_sub (Num 1) (Num 2) = Num (- 1)"
  "js_sub (Num 1) (Num 11) = Num (- 10)"
  "js_sub (Num 1) (Num (3039929748475085 / 1125899906842624))
     = Num (- (1914029841632461 / 1125899906842624))"
    apply (simp_all add: js_sub_Num small_doubles)
  apply (subst fl64_binade_up [where k = 0], simp_all add: rnd_even_def)
  done

text \<open>
  Claim C7.  \<open>repel\<close> returns true exactly when the first body is collideable and
  \<open>Math.abs(dist) < (a.size.x / 2 + b.size.x / 2) * 0.85\<close> holds as the code
  computes it: the two centres, their difference, the half widths, their sum and the
  product are doubles, each operation rounded, and \<open>0.85\<close> is the double nearest
  to it.  Both bodies are left as they were unless, in addition, the second body is
  collideable and the bottoms, computed in doubles, differ by less than 15.
\<close>

theorem repel_flag_and_frame:
  "fst (repel rf a b damper)
     = (collideable a
        \<and> js_lt (js_abs (js_sub (js_horizontalCenter a) (js_horizontalCenter b)))
                 (js_mul (js_add (js_div (Num (size_x a)) (Num 2)) (js_div (Num (size_x b)) (Num 2)))
                         (fl64 (85 / 100))))
   \<and> (\<not> (collideable a
           \<and> js_lt (js_abs (js_sub (js_horizontalCenter a) (js_horizontalCenter b)))
                    (js_mul (js_add (js_div (Num (size_x a)) (Num 2)) (js_div (Num (size_x b)) (Num 2)))
                            (fl64 (85 / 100)))
           \<and> collideable b
           \<and> js_lt (js_abs (js_sub (js_bottom a) (js_bottom b))) (Num 15))
        \<longrightarrow> snd (repel rf a b damper) = Some (a, b))"
  using repel_flag [of rf a b damper] repel_unchanged [of a b rf damper] by blast

theorem repel_flag_and_frame_witness:
  "\<not> fst (repel (\<lambda>d k. Num 1) (resting 0 2 1) (resting 10 2 1) 8.5)
   \<and> snd (repel (\<lambda>d k. Num 1) (resting 0 2 1) (resting 10 2 1) 8.5)
       = Some (resting 0 2 1, resting 10 2 1)
   \<and> fst (repel (\<lambda>d k. Num 1) (resting 0 2 1) ((resting 1 2 1)\<lparr>collideable := False\<rparr>) 8.5)
   \<and> snd (repel (\<lambda>d k. Num 1) (resting 0 2 1) ((resting 1 2 1)\<lparr>collideable := False\<rparr>) 8.5)
       = Some (resting 0 2 1, (resting 1 2 1)\<lparr>collideable := False\<rparr>)"
proof -
  let ?a = "resting 0 2 1" and ?far = "resting 10 2 1"
  let ?ghost = "(resting 1 2 1)\<lparr>collideable := False\<rparr>"
  have ghost: "js_horizontalCenter ?ghost = Num 2" "size_x ?ghost = size_x (resting 1 2 1)"
    "\<not> collideable ?ghost" "collideable ?a"
    using centre_of_resting(2) [of 1] by (simp_all add: js_horizontalCenter_def resting_def)
  have far: "\<not> js_lt (js_abs (js_sub (js_horizontalCenter ?a) (js_horizontalCenter ?far)))
                 (js_mul (js_add (js_div (Num (size_x ?a)) (Num 2)) (js_div (Num (size_x ?far)) (Num 2)))
                         (fl64 (85 / 100)))"
    unfolding centre_of_resting distances threshold_two_and_two by simp
  have near: "js_lt (js_abs (js_sub (js_horizontalCenter ?a) (js_horizontalCenter ?ghost)))
                 (js_mul (js_add (js_div (Num (size_x ?a)) (Num 2)) (js_div (Num (size_x ?ghost)) (Num 2)))
                         (fl64 (85 / 100)))"
    unfolding ghost centre_of_resting distances threshold_two_and_two by simp
  from repel_flag_and_frame [of "\<lambda>d k. Num 1" ?a ?far "8.5"] far
  have 1: "\<not> fst (repel (\<lambda>d k. Num 1) ?a ?far 8.5)
           \<and> snd (repel (\<lambda>d k. Num 1) ?a ?far 8.5) = Some (?a, ?far)"
    by blast
  from repel_flag_and_frame [of "\<lambda>d k. Num 1" ?a ?ghost "8.5"] near ghost(3,4)
  have 2: "fst (repel (\<lambda>d k. Num 1) ?a ?ghost 8.5)
           \<and> snd (repel (\<lambda>d k. Num 1) ?a ?ghost 8.5) = Some (?a, ?ghost)"
    by blast
  from 1 2 show ?thesis by blast
qed

text \<open>
  Claim C7, as it was stated, compares the exact distance with the exact product.
  For two bodies of width 2 with left sides at \<open>0\<close> and at the double \<open>1.7\<close>
  the exact distance of the centres is below \<open>0.85 * 2\<close>, the double \<open>1.7\<close>
  being below \<open>17 / 10\<close>; the code computes the distance \<open>1.7000000000000002\<close>
  and the bound \<open>1.7\<close>, and returns false.
\<close>

theorem repel_flag_counterexample:
  "\<not> fst (repel (\<lambda>d k. Num 1) (resting 0 2 1) (resting (7656119366529843 / 4503599627370496) 2 1) 8.5)
   \<and> collideable (resting 0 2 1)
   \<and> \<bar>horizontalCenter (resting 0 2 1)
        - horizontalCenter (resting (7656119366529843 / 4503599627370496) 2 1)\<bar>
       < 0.85 * (size_x (resting 0 2 1) / 2
                 + size_x (resting (7656119366529843 / 4503599627370496) 2 1) / 2)"
proof -
  have "\<not> fst (repel (\<lambda>d k. Num 1) (resting 0 2 1)
            (resting (7656119366529843 / 4503599627370496) 2 1) 8.5)"
    unfolding repel_flag centre_of_resting distances threshold_two_and_two by simp
  then show ?thesis
    by (simp add: resting_def horizontalCenter_def)
qed

subsection \<open>The force applied\<close>

lemma repel_force_branch:
  assumes ca: "collideable a" and cb: "collideable b"
    and near: "js_lt (js_abs (js_sub (js_horizontalCenter a) (js_horizontalCenter b)))
                 (js_mul (js_add (js_div (Num (size_x a)) (Num 2)) (js_div (Num (size_x b)) (Num 2)))
                         (fl64 (85 / 100)))"
    and band: "js_lt (js_abs (js_sub (js_bottom a) (js_bottom b))) (Num 15)"
  shows "repel rf a b damper =
     (let dist = js_sub (js_horizontalCenter a) (js_horizontalCenter b);
          force = rf dist (Num damper);
          weightRatio = js_div (Num (weight a)) (Num (weight b))
      in if js_lt dist (Num 0) then
           (True, write_velocities a b
              (js_sub (Num (vel_x a))
                 (js_mul (js_div force weightRatio) (Num (if vel_x a > 0 then 2 else 1))))
              (js_add (Num (vel_x b))
                 (js_mul (js_mul force weightRatio) (Num (if vel_x b < 0 then 2 else 1)))))
         else
           (True, write_velocities a b
              (js_add (Num (vel_x a))
                 (js_mul (js_div force weightRatio) (Num (if vel_x a < 0 then 2 else 1))))
              (js_sub (Num (vel_x b))
                 (js_mul (js_mul force weightRatio) (Num (if vel_x b > 0 then 2 else 1))))))"
  using assms unfolding repel_def Let_def by (simp only: if_True if_False not_True_eq_False simp_thms)

lemma bottoms_of_resting: "js_sub (js_bottom (resting x w wt)) (js_bottom (resting x' w' wt')) = Num 0"
  by (simp add: js_bottom_def resting_def js_sub_Num fl64_zero)

lemma bottoms_of_resting_moving:
  "js_sub (js_bottom ((resting x w wt)\<lparr>vel_x := v\<rparr>)) (js_bottom (resting x' w' wt')) = Num 0"
  by (simp add: js_bottom_def resting_def js_sub_Num fl64_zero)

lemma ten_ninths:
  "fl64 (10 / 9) = Num (2501999792983609 / 2251799813685248)"
  by (subst fl64_binade_up [where k = 0], simp_all add: rnd_even_def)

lemma nine_tenths_twice_rounded:
  "fl64 (2251799813685248 / 2501999792983609) = Num (2026619832316723 / 2251799813685248)"
  by (subst fl64_binade_down [where k = 1], simp_all add: rnd_even_def)

lemma nine_tenths:
  "fl64 (9 / 10) = Num (8106479329266893 / 9007199254740992)"
  by (subst fl64_binade_down [where k = 1], simp_all add: rnd_even_def)

lemma ten_ninths_fixed:
  "fl64 (2501999792983609 / 2251799813685248) = Num (2501999792983609 / 2251799813685248)"
  by (subst fl64_binade_up [where k = 0], simp_all add: rnd_even_def)

lemma nine_tenths_fixed:
  "fl64 (2026619832316723 / 2251799813685248) = Num (2026619832316723 / 2251799813685248)"
  by (subst fl64_binade_down [where k = 1], simp_all add: rnd_even_def)

lemmas weights_ten_nine =
  ten_ninths nine_tenths_twice_rounded nine_tenths ten_ninths_fixed nine_tenths_fixed

lemma js_div_is_double: "js_div x y = Num q \<Longrightarrow> is_double q"
  by (cases x; cases y) (auto simp: js_inf_def is_double_zero fl64_is_double split: if_splits)

lemma js_mul_is_double: "js_mul x y = Num q \<Longrightarrow> is_double q"
  by (cases x; cases y) (auto simp: js_inf_def fl64_is_double split: if_splits)

lemma js_mul_by_one:
  assumes "is_double q"
  shows "js_mul (Num q) (Num 1) = Num q"
  using fl64_of_double [OF assms] by simp

lemma js_mul_by_two:
  assumes "is_double q" and "\<bar>q\<bar> < finite_range"
  shows "js_mul (Num q) (Num 2) = Num (2 * q)"
proof -
  have "\<bar>2 * q\<bar> < 2 ^ 1024" using assms(2) unfolding finite_range_def by simp
  from fl64_of_double [OF is_double_twice [OF assms(1) this]]
  show ?thesis by (simp add: mult.commute)
qed

text \<open>
  Claim C6.  When \<open>repel\<close> applies a force (both bodies collideable, the test on
  the centres and the test on the bottoms passing as the code computes them in
  doubles), \<open>repulsionForce\<close> returning a positive number \<open>f\<close> and both weights
  being positive, the call returns true and changes the two horizontal velocities by
  \<open>f / (a.weight / b.weight) * m\<close> for the first body and
  \<open>f * (a.weight / b.weight) * m\<close> for the second, computed in doubles from left
  to right, each operation rounded.  The factor \<open>m\<close> is 2 for a body that moves
  toward the other and 1 otherwise.  With \<open>m = 1\<close> the amount is the quotient
  \<open>f / (a.weight / b.weight)\<close>, for the second body the product, as it is; with
  \<open>m = 2\<close> it is exactly twice that, so long as the quotient or the product is
  below \<open>2 ^ 1023\<close>.  Neither amount is negative, and the amounts are
  applied in opposite directions, away from the other body: subtracted from the
  velocity of the first body and added to that of the second when the centre of the
  first is left of the centre of the second, and the other way round otherwise.
\<close>

theorem repel_force_rounded:
  assumes ca: "collideable a" and cb: "collideable b"
    and near: "js_lt (js_abs (js_sub (js_horizontalCenter a) (js_horizontalCenter b)))
                 (js_mul (js_add (js_div (Num (size_x a)) (Num 2)) (js_div (Num (size_x b)) (Num 2)))
                         (fl64 (85 / 100)))"
    and band: "js_lt (js_abs (js_sub (js_bottom a) (js_bottom b))) (Num 15)"
    and wa: "0 < weight a" and wb: "0 < weight b"
    and force: "rf (js_sub (js_horizontalCenter a) (js_horizontalCenter b)) (Num damper) = Num f"
    and pos: "0 < f"
  shows
    "(let dist = js_sub (js_horizontalCenter a) (js_horizontalCenter b);
          ratio = js_div (Num (weight a)) (Num (weight b));
          left_of = js_lt dist (Num 0);
          toward_a = (if left_of then vel_x a > 0 else vel_x a < 0);
          toward_b = (if left_of then vel_x b < 0 else vel_x b > 0);
          base_a = js_div (Num f) ratio;
          base_b = js_mul (Num f) ratio;
          push_a = js_mul base_a (Num (if toward_a then 2 else 1));
          push_b = js_mul base_b (Num (if toward_b then 2 else 1))
      in js_nonneg push_a \<and> js_nonneg push_b
         \<and> (\<forall>q. base_a = Num q \<and> \<bar>q\<bar> < finite_range
                \<longrightarrow> push_a = Num (if toward_a then 2 * q else q))
         \<and> (\<forall>q. base_b = Num q \<and> \<bar>q\<bar> < finite_range
                \<longrightarrow> push_b = Num (if toward_b then 2 * q else q))
         \<and> repel rf a b damper =
             (True, write_velocities a b
                (if left_of then js_sub (Num (vel_x a)) push_a else js_add (Num (vel_x a)) push_a)
                (if left_of then js_add (Num (vel_x b)) push_b else js_sub (Num (vel_x b)) push_b)))"
proof -
  define ratio where "ratio = js_div (Num (weight a)) (Num (weight b))"
  have ratio: "js_nonneg ratio" unfolding ratio_def using wa wb by (rule js_nonneg_ratio)
  have pa: "js_nonneg (js_mul (js_div (Num f) ratio) (Num m))" if "0 < m" for m
    using js_nonneg_div_force [OF pos ratio] that by (rule js_nonneg_mul_factor)
  have pb: "js_nonneg (js_mul (js_mul (Num f) ratio) (Num m))" if "0 < m" for m
    using js_nonneg_mul_force [OF pos ratio] that by (rule js_nonneg_mul_factor)
  have da: "js_mul (js_div (Num f) ratio) (Num (if t then 2 else 1)) = Num (if t then 2 * q else q)"
    if "js_div (Num f) ratio = Num q \<and> \<bar>q\<bar> < finite_range" for q t
    using that js_mul_by_one [OF js_div_is_double, of "Num f" ratio q]
      js_mul_by_two [OF js_div_is_double, of "Num f" ratio q]
    by (cases t) (simp_all del: js_mul.simps)
  have db: "js_mul (js_mul (Num f) ratio) (Num (if t then 2 else 1)) = Num (if t then 2 * q else q)"
    if "js_mul (Num f) ratio = Num q \<and> \<bar>q\<bar> < finite_range" for q t
    using that js_mul_by_one [OF js_mul_is_double, of "Num f" ratio q]
      js_mul_by_two [OF js_mul_is_double, of "Num f" ratio q]
    by (cases t) (simp_all del: js_mul.simps)
  note r = repel_force_branch [OF ca cb near band, of rf damper, unfolded Let_def force,
      folded ratio_def]
  show ?thesis
    unfolding Let_def
    apply (fold ratio_def)
    apply (intro conjI allI impI)
        apply (rule pa, simp)
       apply (rule pb, simp)
      apply (erule da)
     apply (erule db)
    apply (subst r)
    apply (cases "js_lt (js_sub (js_horizontalCenter a) (js_horizontalCenter b)) (Num 0)")
     apply simp_all
    done
qed

theorem repel_force_rounded_witness:
  "repel (\<lambda>d k. Num 1) ((resting 0 2 1)\<lparr>vel_x := 1\<rparr>) (resting 1 2 2) 8.5
     = (True, Some ((resting 0 2 1)\<lparr>vel_x := - 3\<rparr>, (resting 1 2 2)\<lparr>vel_x := 1 / 2\<rparr>))"
proof -
  let ?a = "(resting 0 2 1)\<lparr>vel_x := 1\<rparr>" and ?b = "resting 1 2 2"
  have a: "js_horizontalCenter ?a = Num 1" "size_x ?a = size_x (resting 0 2 1)"
    "vel_x ?a = 1" "weight ?a = 1" "vel_x ?b = 0" "weight ?b = 2"
    "?a\<lparr>vel_x := - 3\<rparr> = (resting 0 2 1)\<lparr>vel_x := - 3\<rparr>"
    using centre_of_resting(1) [of 1] by (simp_all add: js_horizontalCenter_def resting_def)
  have h: "collideable ?a" "collideable ?b"
    "js_lt (js_abs (js_sub (js_horizontalCenter ?a) (js_horizontalCenter ?b)))
                 (js_mul (js_add (js_div (Num (size_x ?a)) (Num 2)) (js_div (Num (size_x ?b)) (Num 2)))
                         (fl64 (85 / 100)))"
    "js_lt (js_abs (js_sub (js_bottom ?a) (js_bottom ?b))) (Num 15)"
    "0 < weight ?a" "0 < weight ?b"
    unfolding a centre_of_resting distances threshold_two_and_two bottoms_of_resting_moving
    by (simp_all add: resting_def)
  have f: "(\<lambda>d k. Num 1) (js_sub (js_horizontalCenter ?a) (js_horizontalCenter ?b)) (Num 8.5) = Num 1"
    "0 < (1::real)" by simp_all
  have r: "fl64 (1 / 2) = Num (1 / 2)" "fl64 4 = Num 4" "fl64 (- 3) = Num (- 3)"
    by (subst fl64_binade_down [where k = 1], simp_all add: rnd_even_def)
       (subst fl64_binade_up [where k = 2], simp_all add: rnd_even_def,
        subst fl64_binade_up [where k = 1], simp_all add: rnd_even_def)
  from repel_force_rounded [where rf = "\<lambda>d k. Num 1" and damper = "8.5", OF h f]
  show ?thesis
    unfolding Let_def a centre_of_resting distances
    by (simp add: js_sub_Num small_doubles r write_velocities_def)
qed

text \<open>
  Claim C6, as it was stated, has the first body receive \<open>force * b.weight / a.weight\<close>.
  With weights 10 and 9 and a force of 1 the code computes \<open>1 / (10 / 9)\<close> in
  doubles, which is \<open>0.8999999999999999\<close>: neither \<open>9 / 10\<close> nor the double
  nearest to it.  The two bodies satisfy the conditions of the claim over the reals
  too.
\<close>

theorem repel_force_counterexample:
  "repel (\<lambda>d k. Num 1) (resting 0 2 10) (resting 1 2 9) 8.5
     = (True, Some ((resting 0 2 10)\<lparr>vel_x := - (2026619832316723 / 2251799813685248)\<rparr>,
                    (resting 1 2 9)\<lparr>vel_x := 2501999792983609 / 2251799813685248\<rparr>))
   \<and> (2026619832316723::real) / 2251799813685248 \<noteq> 1 * 9 / 10
   \<and> fl64 (1 * 9 / 10) \<noteq> Num (2026619832316723 / 2251799813685248)
   \<and> collideable (resting 0 2 10) \<and> collideable (resting 1 2 9)
   \<and> \<bar>horizontalCenter (resting 0 2 10) - horizontalCenter (resting 1 2 9)\<bar>
       < 0.85 * (size_x (resting 0 2 10) / 2 + size_x (resting 1 2 9) / 2)
   \<and> \<bar>bottom (resting 0 2 10) - bottom (resting 1 2 9)\<bar> < 15"
proof -
  let ?a = "resting 0 2 10" and ?b = "resting 1 2 9"
  have c: "collideable ?a" "collideable ?b" by (simp_all add: resting_def)
  have near: "js_lt (js_abs (js_sub (js_horizontalCenter ?a) (js_horizontalCenter ?b)))
                 (js_mul (js_add (js_div (Num (size_x ?a)) (Num 2)) (js_div (Num (size_x ?b)) (Num 2)))
                         (fl64 (85 / 100)))"
    unfolding centre_of_resting distances threshold_two_and_two by simp
  have band: "js_lt (js_abs (js_sub (js_bottom ?a) (js_bottom ?b))) (Num 15)"
    unfolding bottoms_of_resting by simp
  have v: "vel_x ?a = 0" "vel_x ?b = 0" "weight ?a = 10" "weight ?b = 9"
    by (simp_all add: resting_def)
  have "repel (\<lambda>d k. Num 1) ?a ?b 8.5
     = (True, Some (?a\<lparr>vel_x := - (2026619832316723 / 2251799813685248)\<rparr>,
                    ?b\<lparr>vel_x := 2501999792983609 / 2251799813685248\<rparr>))"
    unfolding repel_force_branch [OF c near band] Let_def centre_of_resting distances v
    by (simp add: js_sub_Num write_velocities_def weights_ten_nine)
  then show ?thesis
    by (simp add: weights_ten_nine) (simp add: resting_def horizontalCenter_def bottom_def)
qed

end
